theory Spec2Isabelle
  imports Main "HOL-Library.Word" "HOL-Library.Product_Lexorder"
begin

section \<open>Data model of the edge accessor\<close>

text \<open>
  The embedding follows \<^verbatim>\<open>src/storage/v2/edge_accessor.cpp\<close> and the constructor of
  \<^verbatim>\<open>src/storage/v2/vertex_accessor.hpp\<close>. Timestamps and transaction ids are
  \<^verbatim>\<open>uint64_t\<close>; only equality and the unsigned order are used on them. The id types
  (\<^verbatim>\<open>Gid\<close>, \<^verbatim>\<open>PropertyId\<close>, \<^verbatim>\<open>EdgeTypeId\<close>) are opaque wrappers of an unsigned
  number declared outside these files; pointers are addresses. A member \<^verbatim>\<open>name_\<close> of a
  class is the field \<open>name\<close> of its record (\<^verbatim>\<open>edge_\<close> is \<open>edge_ref\<close>), and a local
  variable named like a field carries a prime.
\<close>

type_synonym u64 = "64 word"
type_synonym Gid = nat
type_synonym PropertyId = nat
type_synonym EdgeTypeId = nat
type_synonym ptr = nat

text \<open>
  Modelled from the spec: \<^verbatim>\<open>PropertyValue\<close> (property_value.hpp is not among the
  sources). The accessor only builds the default value, copies values and asks
  \<^verbatim>\<open>IsNull()\<close>; the null value "denotes did not exist".
\<close>

datatype PropertyValue = Null | Bool bool | Integer int | Text string

definition IsNull :: "PropertyValue \<Rightarrow> bool" where
  "IsNull v = (v = Null)"

text \<open>
  Modelled from the spec: the error kinds and the views (result.hpp and view.hpp are not among
  the sources), as section 6 of the specification lists them. The actions of a delta are those
  of the switch statements of the accessor.
\<close>

datatype Error = SERIALIZATION_ERROR | NONEXISTENT_OBJECT | DELETED_OBJECT | PROPERTIES_DISABLED

datatype View = OLD | NEW

datatype Action =
    DELETE_OBJECT | RECREATE_OBJECT | SET_PROPERTY | ADD_LABEL | REMOVE_LABEL
  | ADD_IN_EDGE | ADD_OUT_EDGE | REMOVE_IN_EDGE | REMOVE_OUT_EDGE

subsection \<open>\<^verbatim>\<open>std::map\<close> as a key-ordered association list\<close>

type_synonym ('k, 'v) std_map = "('k \<times> 'v) list"

definition std_find :: "('k, 'v) std_map \<Rightarrow> 'k \<Rightarrow> 'v option" where
  "std_find m k = map_of m k"

definition std_erase :: "'k \<Rightarrow> ('k, 'v) std_map \<Rightarrow> ('k, 'v) std_map" where
  "std_erase k m = filter (\<lambda>p. fst p \<noteq> k) m"

text \<open>\<^verbatim>\<open>it->second = v\<close> for the iterator that \<^verbatim>\<open>find(k)\<close> returned.\<close>

definition std_set_second :: "'k \<Rightarrow> 'v \<Rightarrow> ('k, 'v) std_map \<Rightarrow> ('k, 'v) std_map" where
  "std_set_second k v m = map (\<lambda>p. if fst p = k then (k, v) else p) m"

text \<open>\<^verbatim>\<open>emplace(k, v)\<close>: inserts in key order; a key already present keeps its value.\<close>

fun std_emplace :: "'k::linorder \<Rightarrow> 'v \<Rightarrow> ('k, 'v) std_map \<Rightarrow> ('k, 'v) std_map" where
  "std_emplace k v [] = [(k, v)]"
| "std_emplace k v (p # m) =
     (if k < fst p then (k, v) # p # m
      else if k = fst p then p # m
      else p # std_emplace k v m)"

text \<open>\<^verbatim>\<open>m[k] = v\<close>.\<close>

definition std_subscript_assign :: "'k::linorder \<Rightarrow> 'v \<Rightarrow> ('k, 'v) std_map \<Rightarrow> ('k, 'v) std_map" where
  "std_subscript_assign k v m =
     (case std_find m k of
        None \<Rightarrow> std_emplace k v m
      | Some old \<Rightarrow> std_set_second k v m)"

subsection \<open>The property store\<close>

text \<open>
  Modelled from the spec: \<^verbatim>\<open>PropertyStore\<close> (property_store.hpp is not among the
  sources). Its encoding is opaque and "only its map-like contract (get/set/clear/enumerate by
  key) is used": a key that is not stored reads as the null value, and storing the null
  value for a key leaves the key not stored.
\<close>

type_synonym PropertyStore = "(PropertyId, PropertyValue) std_map"

definition PropertyStore_GetProperty :: "PropertyStore \<Rightarrow> PropertyId \<Rightarrow> PropertyValue" where
  "PropertyStore_GetProperty ps k = (case std_find ps k of None \<Rightarrow> Null | Some v \<Rightarrow> v)"

definition PropertyStore_SetProperty :: "PropertyId \<Rightarrow> PropertyValue \<Rightarrow> PropertyStore \<Rightarrow> PropertyStore" where
  "PropertyStore_SetProperty k v ps =
     (if IsNull v then std_erase k ps else std_subscript_assign k v ps)"

definition PropertyStore_Properties :: "PropertyStore \<Rightarrow> (PropertyId, PropertyValue) std_map" where
  "PropertyStore_Properties ps = ps"

definition PropertyStore_ClearProperties :: "PropertyStore \<Rightarrow> PropertyStore" where
  "PropertyStore_ClearProperties ps = []"

subsection \<open>Deltas, edges, transactions, accessors\<close>

text \<open>
  Modelled from the spec: the declarations of \<^verbatim>\<open>Delta\<close>, \<^verbatim>\<open>Edge\<close>, \<^verbatim>\<open>Transaction\<close> and
  \<^verbatim>\<open>Config::Items\<close> (delta.hpp, edge.hpp, transaction.hpp and config.hpp are not among the
  sources). The fields are the members the accessor reads and writes, and for a transaction
  also the start timestamp and the commit-timestamp cell of the data model of the
  specification. A delta is an undo record. Its \<open>timestamp\<close> is a pointer to a timestamp
  cell, shared by the deltas of one transaction; the chain (\<^verbatim>\<open>next\<close>) is the list of deltas,
  newest first. The payload of a \<^verbatim>\<open>SET_PROPERTY\<close> delta is the key and the prior value. The
  write-count \<open>num\<close> is a natural number.
\<close>

record Delta =
  action :: Action
  property_key :: PropertyId
  property_value :: PropertyValue
  timestamp :: ptr
  from_gid :: Gid
  to_gid :: Gid
  transaction_st :: u64

text \<open>
  The spin lock of an edge has no field: taking and releasing it are events of the trace of
  the state below.
\<close>

record Edge =
  gid :: Gid
  properties :: PropertyStore
  deleted :: bool
  delta :: "Delta list"
  transaction_st :: u64
  from_gid :: Gid
  to_gid :: Gid
  num :: nat

type_synonym prinfEdge_record =
  "EdgeTypeId \<times> nat \<times> nat \<times> nat \<times> u64 \<times> (PropertyId, PropertyValue) std_map"

record Transaction =
  transaction_id :: u64
  start_timestamp :: u64
  commit_timestamp :: ptr
  gid_anchor_edge :: "(Gid \<times> u64, (PropertyId, PropertyValue) std_map) std_map"
  prinfEdge :: "prinfEdge_record list"

text \<open>\<^verbatim>\<open>Config::Items\<close>, the two fields the accessor reads.\<close>

record Items =
  properties_on_edges :: bool
  AnchorNum :: nat

text \<open>
  What the accessor uses and is declared outside these files: the threshold
  \<^verbatim>\<open>kTransactionInitialId\<close> from which a timestamp is a transaction id, the process-wide
  toggles \<^verbatim>\<open>AnchorFlag\<close> and \<^verbatim>\<open>prinfFlag\<close>, and the helper \<^verbatim>\<open>PrepareForWrite\<close> of
  mvcc.hpp, of which the accessor uses the answer. They are parameters of the model.
\<close>

record Environment =
  kTransactionInitialId :: u64
  AnchorFlag :: bool
  prinfFlag :: bool
  PrepareForWrite :: "(ptr \<Rightarrow> u64) \<Rightarrow> Transaction \<Rightarrow> Edge \<Rightarrow> bool"

record VertexAccessor =
  vertex :: ptr
  transaction :: ptr
  indices :: ptr
  constraints :: ptr
  config :: Items
  for_deleted :: bool

record EdgeAccessor =
  edge_ref :: ptr
  edge_type :: EdgeTypeId
  from_vertex :: ptr
  to_vertex :: ptr
  transaction :: ptr
  indices :: ptr
  constraints :: ptr
  config :: Items
  for_deleted :: bool

text \<open>
  The state an accessor works on: the timestamp cells, the transaction and the edge its
  pointers lead to, and the trace of what was done so far, in program order: the lock taken
  (\<open>Lock\<close>) and released (\<open>Unlock\<close>), the live fields of the edge read by a reader
  (\<open>ReadLive\<close>), and the chain walked (\<open>Walk\<close>).
\<close>

datatype Event = Lock | Unlock | ReadLive | Walk

record State =
  cells :: "ptr \<Rightarrow> u64"
  txn :: Transaction
  edge :: Edge
  trace :: "Event list"

definition emit :: "Event list \<Rightarrow> State \<Rightarrow> State" where
  "emit evs s = s\<lparr>trace := trace s @ evs\<rparr>"

section \<open>Operations\<close>

subsection \<open>Helpers of mvcc.hpp\<close>

text \<open>
  \<^verbatim>\<open>ApplyDeltasForRead(transaction, delta, view, callback)\<close> is not among the sources
  (mvcc.hpp). The visitor it gets returns nothing, so all the helper can do with it is to hand
  it deltas, one after the other. Which deltas it hands over, for a transaction, a chain head
  and a view, and in which order, is a parameter of the model: the resolver.
\<close>

type_synonym Resolver = "(ptr \<Rightarrow> u64) \<Rightarrow> Transaction \<Rightarrow> Delta list \<Rightarrow> View \<Rightarrow> Delta list"

definition ApplyDeltasForRead ::
  "Resolver \<Rightarrow> (ptr \<Rightarrow> u64) \<Rightarrow> Transaction \<Rightarrow> Delta list \<Rightarrow> View \<Rightarrow> (Delta \<Rightarrow> 'a \<Rightarrow> 'a) \<Rightarrow> 'a \<Rightarrow> 'a"
where
  "ApplyDeltasForRead h c t ds view callback st = fold callback (h c t ds view) st"

text \<open>
  Modelled from the spec: the answer of \<^verbatim>\<open>PrepareForWrite\<close> (mvcc.hpp is not among the
  sources) as the write validator of section 4.2 gives it: permitted without a head delta;
  with a head whose timestamp cell is in uncommitted form, permitted exactly for the
  transaction that owns it; permitted with a committed head. The first argument is the
  threshold for transaction ids.
\<close>

definition Write_Validator :: "u64 \<Rightarrow> (ptr \<Rightarrow> u64) \<Rightarrow> Transaction \<Rightarrow> Edge \<Rightarrow> bool" where
  "Write_Validator initial_id c t e =
     (case delta e of
        [] \<Rightarrow> True
      | d # ds \<Rightarrow>
          (if initial_id \<le> c (timestamp d)
           then c (timestamp d) = transaction_id t
           else True))"

text \<open>
  Modelled from the spec: \<^verbatim>\<open>CreateAndLinkDelta\<close> (mvcc.hpp is not among the sources):
  a delta with the given payload, sharing the timestamp cell of its transaction, is linked at
  the chain head. The caller receives a pointer to it, which is the head of the new chain.
\<close>

definition CreateAndLinkDelta ::
  "Transaction \<Rightarrow> Edge \<Rightarrow> Action \<Rightarrow> PropertyId \<Rightarrow> PropertyValue \<Rightarrow> Edge" where
  "CreateAndLinkDelta t e a k v =
     e\<lparr>delta :=
         \<lparr>action = a, property_key = k, property_value = v, timestamp = commit_timestamp t,
          Delta.from_gid = 0, Delta.to_gid = 0, Delta.transaction_st = 0\<rparr> # delta e\<rparr>"

text \<open>An assignment through the pointer that \<^verbatim>\<open>CreateAndLinkDelta\<close> returned.\<close>

fun through_head :: "(Delta \<Rightarrow> Delta) \<Rightarrow> Delta list \<Rightarrow> Delta list" where
  "through_head f [] = []"
| "through_head f (d # ds) = f d # ds"

subsection \<open>IsVisible, FromVertex, ToVertex\<close>

text \<open>The visitors work on the variables they capture by reference: here \<open>(exists, deleted)\<close>.\<close>

definition IsVisible_callback :: "Delta \<Rightarrow> bool \<times> bool \<Rightarrow> bool \<times> bool" where
  "IsVisible_callback d st =
     (case action d of
        RECREATE_OBJECT \<Rightarrow> (fst st, False)
      | DELETE_OBJECT \<Rightarrow> (False, snd st)
      | _ \<Rightarrow> st)"

definition IsVisible :: "Resolver \<Rightarrow> EdgeAccessor \<Rightarrow> View \<Rightarrow> State \<Rightarrow> bool \<times> State" where
  "IsVisible h acc view s =
     (let s1 = emit [Lock] s;
          s2 = emit [ReadLive] s1;
          deleted' = deleted (edge s2);
          delta' = delta (edge s2);
          s3 = emit [Unlock] s2;
          s4 = emit [Walk] s3;
          r = ApplyDeltasForRead h (cells s4) (txn s4) delta' view IsVisible_callback
                (True, deleted')
      in (fst r \<and> (for_deleted acc \<or> \<not> snd r), s4))"

text \<open>
  The constructor of the vertex accessor. Its last parameter \<^verbatim>\<open>for_deleted\<close> defaults to
  false; \<^verbatim>\<open>FromVertex\<close> and \<^verbatim>\<open>ToVertex\<close> pass the first five arguments only.
\<close>

definition VertexAccessor_ctor ::
  "ptr \<Rightarrow> ptr \<Rightarrow> ptr \<Rightarrow> ptr \<Rightarrow> Items \<Rightarrow> bool \<Rightarrow> VertexAccessor" where
  "VertexAccessor_ctor v t i c cfg fd =
     \<lparr>vertex = v, VertexAccessor.transaction = t,
      VertexAccessor.indices = i, VertexAccessor.constraints = c,
      VertexAccessor.config = cfg, VertexAccessor.for_deleted = fd\<rparr>"

definition FromVertex :: "EdgeAccessor \<Rightarrow> VertexAccessor" where
  "FromVertex acc =
     VertexAccessor_ctor (from_vertex acc) (transaction acc) (indices acc) (constraints acc)
       (config acc) False"

definition ToVertex :: "EdgeAccessor \<Rightarrow> VertexAccessor" where
  "ToVertex acc =
     VertexAccessor_ctor (to_vertex acc) (transaction acc) (indices acc) (constraints acc)
       (config acc) False"

subsection \<open>SetProperty and ClearProperties\<close>

text \<open>
  The block between \<^verbatim>\<open>//hjm begin set transaction st\<close> and \<^verbatim>\<open>//hjm end\<close> stands in
  \<^verbatim>\<open>SetProperty\<close> (lines 104 to 139) and, word for word, in \<^verbatim>\<open>ClearProperties\<close>
  (lines 168 to 203). It computes \<open>ts\<close>, does the anchor bookkeeping and appends the change
  record; it returns early with \<^verbatim>\<open>SERIALIZATION_ERROR\<close> (the line it then prints is left
  out).
\<close>

definition append_prinfEdge :: "Environment \<Rightarrow> EdgeAccessor \<Rightarrow> u64 \<Rightarrow> bool \<Rightarrow> State \<Rightarrow> State" where
  "append_prinfEdge g acc ts printf s =
     (if prinfFlag g \<and> printf
      then
        (let maybe_properties = PropertyStore_Properties (properties (edge s));
             prinfEdges = (edge_type acc, gid (edge s), from_gid (edge s), to_gid (edge s), ts,
                           maybe_properties)
         in s\<lparr>txn := (txn s)\<lparr>prinfEdge := prinfEdge (txn s) @ [prinfEdges]\<rparr>\<rparr>)
      else s)"

definition anchor_bookkeeping :: "Environment \<Rightarrow> EdgeAccessor \<Rightarrow> u64 \<Rightarrow> State \<Rightarrow> State" where
  "anchor_bookkeeping g acc ts s =
     (let s1 = s\<lparr>edge := (edge s)\<lparr>num := num (edge s) + 1\<rparr>\<rparr>
      in if AnchorNum (config acc) < num (edge s1)
         then
           (let s2 = s1\<lparr>edge := (edge s1)\<lparr>num := 1\<rparr>\<rparr>
            in if AnchorFlag g
               then
                 (let maybe_properties = PropertyStore_Properties (properties (edge s2))
                  in s2\<lparr>txn := (txn s2)\<lparr>gid_anchor_edge :=
                          std_subscript_assign (gid (edge s2), ts) maybe_properties
                            (gid_anchor_edge (txn s2))\<rparr>\<rparr>)
               else s2)
         else s1)"

definition set_transaction_st :: "Environment \<Rightarrow> EdgeAccessor \<Rightarrow> State \<Rightarrow> Error + (u64 \<times> State)" where
  "set_transaction_st g acc s =
     (case delta (edge s) of
        [] \<Rightarrow> Inr (transaction_st (edge s), append_prinfEdge g acc (transaction_st (edge s)) True s)
      | before_delta # older \<Rightarrow>
          (let ts = cells s (timestamp before_delta)
           in if kTransactionInitialId g \<le> ts
              then
                (if ts = transaction_id (txn s)
                 then Inr (Delta.transaction_st before_delta,
                           append_prinfEdge g acc (Delta.transaction_st before_delta) False s)
                 else Inl SERIALIZATION_ERROR)
              else Inr (ts, append_prinfEdge g acc ts True (anchor_bookkeeping g acc ts s))))"

text \<open>
  Lines 149 to 153 and 208 to 212: the undo delta for one key is created and linked, then the
  endpoint ids and \<open>ts\<close> are written through the returned pointer.
\<close>

definition link_undo_delta :: "Transaction \<Rightarrow> u64 \<Rightarrow> PropertyId \<Rightarrow> PropertyValue \<Rightarrow> Edge \<Rightarrow> Edge" where
  "link_undo_delta t ts k v e =
     (let e1 = CreateAndLinkDelta t e SET_PROPERTY k v
      in e1\<lparr>delta :=
            through_head
              (\<lambda>d. d\<lparr>Delta.from_gid := from_gid e1, Delta.to_gid := to_gid e1,
                       Delta.transaction_st := ts\<rparr>)
              (delta e1)\<rparr>)"

text \<open>
  The lock guard is released on every return that follows its construction. The guard
  against allocation failure is outside the logical error kinds and is left out.
\<close>

definition SetProperty ::
  "Environment \<Rightarrow> EdgeAccessor \<Rightarrow> PropertyId \<Rightarrow> PropertyValue \<Rightarrow> State \<Rightarrow> (Error + PropertyValue) \<times> State"
where
  "SetProperty g acc property new_value s =
     (if \<not> properties_on_edges (config acc) then (Inl PROPERTIES_DISABLED, s)
      else
        (let s0 = emit [Lock] s
         in if \<not> PrepareForWrite g (cells s0) (txn s0) (edge s0)
            then (Inl SERIALIZATION_ERROR, emit [Unlock] s0)
            else if deleted (edge s0) then (Inl DELETED_OBJECT, emit [Unlock] s0)
            else
              (case set_transaction_st g acc s0 of
                 Inl err \<Rightarrow> (Inl err, emit [Unlock] s0)
               | Inr (ts, s1) \<Rightarrow>
                   (let current_value = PropertyStore_GetProperty (properties (edge s1)) property;
                        s2 = s1\<lparr>edge := link_undo_delta (txn s1) ts property current_value (edge s1)\<rparr>;
                        s3 = s2\<lparr>edge := (edge s2)\<lparr>properties :=
                                 PropertyStore_SetProperty property new_value (properties (edge s2))\<rparr>\<rparr>
                    in (Inr current_value, emit [Unlock] s3)))))"

fun ClearProperties_loop ::
  "Transaction \<Rightarrow> u64 \<Rightarrow> (PropertyId, PropertyValue) std_map \<Rightarrow> Edge \<Rightarrow> Edge" where
  "ClearProperties_loop t ts [] e = e"
| "ClearProperties_loop t ts (property # rest) e =
     ClearProperties_loop t ts rest (link_undo_delta t ts (fst property) (snd property) e)"

definition ClearProperties ::
  "Environment \<Rightarrow> EdgeAccessor \<Rightarrow> State \<Rightarrow> (Error + (PropertyId, PropertyValue) std_map) \<times> State"
where
  "ClearProperties g acc s =
     (if \<not> properties_on_edges (config acc) then (Inl PROPERTIES_DISABLED, s)
      else
        (let s0 = emit [Lock] s
         in if \<not> PrepareForWrite g (cells s0) (txn s0) (edge s0)
            then (Inl SERIALIZATION_ERROR, emit [Unlock] s0)
            else if deleted (edge s0) then (Inl DELETED_OBJECT, emit [Unlock] s0)
            else
              (case set_transaction_st g acc s0 of
                 Inl err \<Rightarrow> (Inl err, emit [Unlock] s0)
               | Inr (ts, s1) \<Rightarrow>
                   (let props = PropertyStore_Properties (properties (edge s1));
                        s2 = s1\<lparr>edge := ClearProperties_loop (txn s1) ts props (edge s1)\<rparr>;
                        s3 = s2\<lparr>edge := (edge s2)\<lparr>properties :=
                                 PropertyStore_ClearProperties (properties (edge s2))\<rparr>\<rparr>
                    in (Inr props, emit [Unlock] s3)))))"

subsection \<open>GetProperty and Properties\<close>

text \<open>The verdict both readers draw from the replayed \<open>(exists, deleted, result)\<close>.\<close>

definition read_result :: "EdgeAccessor \<Rightarrow> bool \<times> bool \<times> 'a \<Rightarrow> Error + 'a" where
  "read_result acc r =
     (if \<not> fst r then Inl NONEXISTENT_OBJECT
      else if \<not> for_deleted acc \<and> fst (snd r) then Inl DELETED_OBJECT
      else Inr (snd (snd r)))"

definition GetProperty_callback ::
  "PropertyId \<Rightarrow> Delta \<Rightarrow> bool \<times> bool \<times> PropertyValue \<Rightarrow> bool \<times> bool \<times> PropertyValue" where
  "GetProperty_callback property d st =
     (case action d of
        SET_PROPERTY \<Rightarrow>
          (if property_key d = property then (fst st, fst (snd st), property_value d) else st)
      | DELETE_OBJECT \<Rightarrow> (False, snd st)
      | RECREATE_OBJECT \<Rightarrow> (fst st, False, snd (snd st))
      | _ \<Rightarrow> st)"

definition GetProperty ::
  "Resolver \<Rightarrow> EdgeAccessor \<Rightarrow> PropertyId \<Rightarrow> View \<Rightarrow> State \<Rightarrow> (Error + PropertyValue) \<times> State"
where
  "GetProperty h acc property view s =
     (if \<not> properties_on_edges (config acc) then (Inr Null, s)
      else
        (let s1 = emit [Lock] s;
             s2 = emit [ReadLive] s1;
             deleted' = deleted (edge s2);
             value' = PropertyStore_GetProperty (properties (edge s2)) property;
             delta' = delta (edge s2);
             s3 = emit [Unlock] s2;
             s4 = emit [Walk] s3;
             r = ApplyDeltasForRead h (cells s4) (txn s4) delta' view
                   (GetProperty_callback property) (True, deleted', value')
         in (read_result acc r, s4)))"

definition Properties_callback ::
  "Delta \<Rightarrow> bool \<times> bool \<times> (PropertyId, PropertyValue) std_map
     \<Rightarrow> bool \<times> bool \<times> (PropertyId, PropertyValue) std_map" where
  "Properties_callback d st =
     (case action d of
        SET_PROPERTY \<Rightarrow>
          (case std_find (snd (snd st)) (property_key d) of
             Some found \<Rightarrow>
               (if IsNull (property_value d)
                then (fst st, fst (snd st), std_erase (property_key d) (snd (snd st)))
                else (fst st, fst (snd st),
                      std_set_second (property_key d) (property_value d) (snd (snd st))))
           | None \<Rightarrow>
               (if \<not> IsNull (property_value d)
                then (fst st, fst (snd st),
                      std_emplace (property_key d) (property_value d) (snd (snd st)))
                else st))
      | DELETE_OBJECT \<Rightarrow> (False, snd st)
      | RECREATE_OBJECT \<Rightarrow> (fst st, False, snd (snd st))
      | _ \<Rightarrow> st)"

definition Properties ::
  "Resolver \<Rightarrow> EdgeAccessor \<Rightarrow> View \<Rightarrow> State
     \<Rightarrow> (Error + (PropertyId, PropertyValue) std_map) \<times> State"
where
  "Properties h acc view s =
     (if \<not> properties_on_edges (config acc) then (Inr [], s)
      else
        (let s1 = emit [Lock] s;
             s2 = emit [ReadLive] s1;
             deleted' = deleted (edge s2);
             properties' = PropertyStore_Properties (properties (edge s2));
             delta' = delta (edge s2);
             s3 = emit [Unlock] s2;
             s4 = emit [Walk] s3;
             r = ApplyDeltasForRead h (cells s4) (txn s4) delta' view Properties_callback
                   (True, deleted', properties')
         in (read_result acc r, s4)))"

section \<open>Notions the properties are stated with\<close>

subsection \<open>The state of the chain head\<close>

text \<open>
  The state machine of an object as the specification words it: live without a delta, live
  with a committed head, pending for the calling transaction, pending for another one.
\<close>

datatype HeadState = NoHead | HeadCommitted | HeadOwn | HeadForeign

definition head_state :: "Environment \<Rightarrow> State \<Rightarrow> HeadState" where
  "head_state g s =
     (case delta (edge s) of
        [] \<Rightarrow> NoHead
      | d # ds \<Rightarrow>
          (if kTransactionInitialId g \<le> cells s (timestamp d)
           then (if cells s (timestamp d) = transaction_id (txn s) then HeadOwn else HeadForeign)
           else HeadCommitted))"

text \<open>
  The value of the local \<open>ts\<close> of a write that is not rejected (lines 104 to 111): the
  \<open>transaction_st\<close> of the edge without a head, the timestamp read from a committed head,
  the \<open>transaction_st\<close> of a head of the calling transaction.
\<close>

definition write_ts :: "Environment \<Rightarrow> State \<Rightarrow> u64" where
  "write_ts g s =
     (case delta (edge s) of
        [] \<Rightarrow> transaction_st (edge s)
      | d # ds \<Rightarrow>
          (if kTransactionInitialId g \<le> cells s (timestamp d) then Delta.transaction_st d
           else cells s (timestamp d)))"

text \<open>
  The undo delta for a key and its prior value, with the timestamp cell, the endpoint ids and
  the \<open>transaction_st\<close> it carries.
\<close>

definition undo_delta :: "ptr \<Rightarrow> Gid \<Rightarrow> Gid \<Rightarrow> u64 \<Rightarrow> PropertyId \<times> PropertyValue \<Rightarrow> Delta" where
  "undo_delta c f t ts p =
     \<lparr>action = SET_PROPERTY, property_key = fst p, property_value = snd p, timestamp = c,
      Delta.from_gid = f, Delta.to_gid = t, Delta.transaction_st = ts\<rparr>"

text \<open>The state in which the block of lines 104 to 139 ends when it does not return.\<close>

definition after_set_transaction_st :: "Environment \<Rightarrow> EdgeAccessor \<Rightarrow> State \<Rightarrow> State" where
  "after_set_transaction_st g acc s =
     (case set_transaction_st g acc s of Inl err \<Rightarrow> s | Inr r \<Rightarrow> snd r)"

text \<open>
  The write-count and the archive after the anchor bookkeeping of a write to a committed head:
  the count is incremented, and reset to 1 when it exceeds \<^verbatim>\<open>AnchorNum\<close>; on a reset with
  anchoring enabled the archive gets the property map under the key \<open>(gid, ts)\<close>.
\<close>

definition anchored_num :: "EdgeAccessor \<Rightarrow> nat \<Rightarrow> nat" where
  "anchored_num acc n = (if AnchorNum (config acc) < n + 1 then 1 else n + 1)"

definition anchored_archive ::
  "Environment \<Rightarrow> EdgeAccessor \<Rightarrow> u64 \<Rightarrow> State
     \<Rightarrow> (Gid \<times> u64, (PropertyId, PropertyValue) std_map) std_map" where
  "anchored_archive g acc ts s =
     (if AnchorNum (config acc) < num (edge s) + 1 \<and> AnchorFlag g
      then std_subscript_assign (gid (edge s), ts) (PropertyStore_Properties (properties (edge s)))
             (gid_anchor_edge (txn s))
      else gid_anchor_edge (txn s))"

text \<open>
  A call is rejected as a write conflict when it returns \<^verbatim>\<open>SERIALIZATION_ERROR\<close> and the
  edge, the transaction and the cells are as before the call.
\<close>

definition rejected_unchanged :: "(Error + 'a) \<times> State \<Rightarrow> State \<Rightarrow> bool" where
  "rejected_unchanged r s =
     (fst r = Inl SERIALIZATION_ERROR \<and> edge (snd r) = edge s \<and> txn (snd r) = txn s
      \<and> cells (snd r) = cells s)"

text \<open>The answer \<^verbatim>\<open>PrepareForWrite\<close> gives a write (lines 100 and 164).\<close>

definition permitted :: "Environment \<Rightarrow> State \<Rightarrow> bool" where
  "permitted g s = PrepareForWrite g (cells s) (txn s) (edge s)"

subsection \<open>The replay of the readers\<close>

text \<open>The applicable deltas: those the resolver hands to the visitor of a reader.\<close>

definition applicable :: "Resolver \<Rightarrow> View \<Rightarrow> State \<Rightarrow> Delta list" where
  "applicable h view s = h (cells s) (txn s) (delta (edge s)) view"

text \<open>The replays the three readers run on the live snapshot (lines 33, 232 and 274).\<close>

definition IsVisible_replay :: "Resolver \<Rightarrow> View \<Rightarrow> State \<Rightarrow> bool \<times> bool" where
  "IsVisible_replay h view s =
     ApplyDeltasForRead h (cells s) (txn s) (delta (edge s)) view IsVisible_callback
       (True, deleted (edge s))"

definition GetProperty_replay ::
  "Resolver \<Rightarrow> PropertyId \<Rightarrow> View \<Rightarrow> State \<Rightarrow> bool \<times> bool \<times> PropertyValue" where
  "GetProperty_replay h property view s =
     ApplyDeltasForRead h (cells s) (txn s) (delta (edge s)) view (GetProperty_callback property)
       (True, deleted (edge s), PropertyStore_GetProperty (properties (edge s)) property)"

definition Properties_replay ::
  "Resolver \<Rightarrow> View \<Rightarrow> State \<Rightarrow> bool \<times> bool \<times> (PropertyId, PropertyValue) std_map" where
  "Properties_replay h view s =
     ApplyDeltasForRead h (cells s) (txn s) (delta (edge s)) view Properties_callback
       (True, deleted (edge s), PropertyStore_Properties (properties (edge s)))"

text \<open>
  The undo of the specification, on maps: a \<^verbatim>\<open>SET_PROPERTY\<close> delta for key \<open>k\<close> with prior
  value \<open>v\<close> "sets the previous state's \<open>k\<close> back to \<open>v\<close>, or removes \<open>k\<close> if \<open>v\<close> denotes
  absent"; \<^verbatim>\<open>DeleteObject\<close> sets \<open>exists\<close> to false and \<^verbatim>\<open>RecreateObject\<close> sets
  \<open>deleted\<close> to false.
\<close>

definition undo_property ::
  "PropertyId \<Rightarrow> PropertyValue \<Rightarrow> (PropertyId \<rightharpoonup> PropertyValue) \<Rightarrow> (PropertyId \<rightharpoonup> PropertyValue)" where
  "undo_property k v m = (if v = Null then m(k := None) else m(k \<mapsto> v))"

definition Resolver_undo ::
  "Delta \<Rightarrow> bool \<times> bool \<times> (PropertyId \<rightharpoonup> PropertyValue)
     \<Rightarrow> bool \<times> bool \<times> (PropertyId \<rightharpoonup> PropertyValue)" where
  "Resolver_undo d st =
     (case action d of
        SET_PROPERTY \<Rightarrow>
          (fst st, fst (snd st), undo_property (property_key d) (property_value d) (snd (snd st)))
      | DELETE_OBJECT \<Rightarrow> (False, snd st)
      | RECREATE_OBJECT \<Rightarrow> (fst st, False, snd (snd st))
      | _ \<Rightarrow> st)"

definition value_of :: "(PropertyId \<rightharpoonup> PropertyValue) \<Rightarrow> PropertyId \<Rightarrow> PropertyValue" where
  "value_of m k = (case m k of None \<Rightarrow> Null | Some v \<Rightarrow> v)"

text \<open>
  The state of the edge under a view as the specification reconstructs it: the undo folded
  over the applicable deltas, from the live deleted flag and the live property map.
\<close>

definition reconstructed ::
  "Resolver \<Rightarrow> View \<Rightarrow> State \<Rightarrow> bool \<times> bool \<times> (PropertyId \<rightharpoonup> PropertyValue)" where
  "reconstructed h view s =
     fold Resolver_undo (applicable h view s)
       (True, deleted (edge s), map_of (PropertyStore_Properties (properties (edge s))))"

subsection \<open>Runs of committed writes\<close>

datatype Write = WriteSet PropertyId PropertyValue | WriteClear

definition edge_write :: "Environment \<Rightarrow> EdgeAccessor \<Rightarrow> Write \<Rightarrow> State \<Rightarrow> bool \<times> State" where
  "edge_write g acc w s =
     (case w of
        WriteSet k v \<Rightarrow>
          (case fst (SetProperty g acc k v s) of
             Inl err \<Rightarrow> (False, snd (SetProperty g acc k v s))
           | Inr old \<Rightarrow> (True, snd (SetProperty g acc k v s)))
      | WriteClear \<Rightarrow>
          (case fst (ClearProperties g acc s) of
             Inl err \<Rightarrow> (False, snd (ClearProperties g acc s))
           | Inr old \<Rightarrow> (True, snd (ClearProperties g acc s))))"

text \<open>
  A run of committed writes to one edge. A step names the transaction that writes, its write,
  and the cells as they are when the next write starts (the writer has committed by then, and
  other transactions have done what they do). Each write is made by a transaction with an
  empty archive on a committed head, and succeeds. The run returns the number of snapshots in
  the archives of its transactions, and the cells and the edge it leaves; it is \<open>None\<close> when
  a step is not such a write.
\<close>

fun committed_writes ::
  "Environment \<Rightarrow> EdgeAccessor \<Rightarrow> (Transaction \<times> Write \<times> (ptr \<Rightarrow> u64)) list
     \<Rightarrow> (ptr \<Rightarrow> u64) \<times> Edge \<Rightarrow> (nat \<times> (ptr \<Rightarrow> u64) \<times> Edge) option" where
  "committed_writes g acc [] ce = Some (0, ce)"
| "committed_writes g acc (step # steps) ce =
     (let t = fst step; w = fst (snd step); cells_then = snd (snd step);
          s = \<lparr>cells = fst ce, txn = t, edge = snd ce, trace = []\<rparr>
      in if head_state g s = HeadCommitted \<and> gid_anchor_edge t = []
            \<and> fst (edge_write g acc w s)
         then
           (let s' = snd (edge_write g acc w s)
            in case committed_writes g acc steps (cells_then, edge s') of
                 None \<Rightarrow> None
               | Some r \<Rightarrow> Some (length (gid_anchor_edge (txn s')) + fst r, snd r))
         else None)"

section \<open>Concrete inputs\<close>

text \<open>
  A small world used to run the operations: the threshold for transaction ids is \<open>2^63\<close>,
  the write validator is that of the specification,
  the calling transaction has id \<open>2^63 + 9\<close>, started at 10 and owns cell 12; cell 11
  holds the commit timestamp 5, and cells 13 and 14 the ids \<open>2^63 + 7\<close> and \<open>2^63 + 11\<close>
  of two other transactions.
\<close>

definition globals0 :: Environment where
  "globals0 = \<lparr>kTransactionInitialId = 9223372036854775808, AnchorFlag = True, prinfFlag = True,
               PrepareForWrite = Write_Validator 9223372036854775808\<rparr>"

definition cells0 :: "ptr \<Rightarrow> u64" where
  "cells0 p = (if p = 11 then 5 else if p = 12 then 9223372036854775817
               else if p = 13 then 9223372036854775815
               else if p = 14 then 9223372036854775819 else 0)"

text \<open>The cells once the calling transaction has committed at 20.\<close>

definition cells1 :: "ptr \<Rightarrow> u64" where
  "cells1 p = (if p = 12 then 20 else cells0 p)"

definition txn0 :: Transaction where
  "txn0 = \<lparr>transaction_id = 9223372036854775817, start_timestamp = 10, commit_timestamp = 12,
            gid_anchor_edge = [], prinfEdge = []\<rparr>"

definition txn1 :: Transaction where
  "txn1 = \<lparr>transaction_id = 9223372036854775819, start_timestamp = 25, commit_timestamp = 14,
            gid_anchor_edge = [], prinfEdge = []\<rparr>"

definition items_on :: Items where
  "items_on = \<lparr>properties_on_edges = True, AnchorNum = 1\<rparr>"

definition items_off :: Items where
  "items_off = \<lparr>properties_on_edges = False, AnchorNum = 1\<rparr>"

definition accessor0 :: "Items \<Rightarrow> bool \<Rightarrow> EdgeAccessor" where
  "accessor0 cfg fd =
     \<lparr>edge_ref = 100, edge_type = 4, from_vertex = 200, to_vertex = 201, transaction = 300,
      indices = 400, constraints = 500, config = cfg, for_deleted = fd\<rparr>"

text \<open>
  A delta with the timestamp cell \<open>c\<close>; as an undo delta it is for key 2 with prior value 41.
\<close>

definition delta0 :: "Action \<Rightarrow> ptr \<Rightarrow> Delta" where
  "delta0 a c =
     \<lparr>action = a, property_key = 2, property_value = Integer 41, timestamp = c,
      Delta.from_gid = 20, Delta.to_gid = 21, Delta.transaction_st = 3\<rparr>"

text \<open>The undo delta for key \<open>k\<close> with prior value \<open>v\<close> and the timestamp cell \<open>c\<close>.\<close>

definition undo0 :: "PropertyId \<Rightarrow> PropertyValue \<Rightarrow> ptr \<Rightarrow> Delta" where
  "undo0 k v c = (delta0 SET_PROPERTY c)\<lparr>property_key := k, property_value := v\<rparr>"

text \<open>The edge 7 from vertex 20 to vertex 21 with the properties \<open>{2: 42, 3: "x"}\<close>.\<close>

definition edge0 :: "bool \<Rightarrow> Delta list \<Rightarrow> nat \<Rightarrow> Edge" where
  "edge0 del chain n =
     \<lparr>gid = 7, properties = [(2, Integer 42), (3, Text ''x'')], deleted = del, delta = chain,
      transaction_st = 2, from_gid = 20, to_gid = 21, num = n\<rparr>"

text \<open>
  The resolver of the runs walks from the head and stops at the first delta that is part of
  the base state of the viewer: one committed before the viewer started or, for the view
  \<^verbatim>\<open>NEW\<close>, one of the viewer itself.
\<close>

definition resolver0 :: Resolver where
  "resolver0 c t ds view =
     takeWhile
       (\<lambda>d. \<not> (c (timestamp d) < start_timestamp t
                 \<or> (view = NEW \<and> c (timestamp d) = transaction_id t)))
       ds"

definition state0 :: "Edge \<Rightarrow> State" where
  "state0 e = \<lparr>cells = cells0, txn = txn0, edge = e, trace = []\<rparr>"

section \<open>Auxiliary lemmas\<close>

subsection \<open>The trace and the walk\<close>

lemma emit_fields:
  "cells (emit evs s) = cells s" "txn (emit evs s) = txn s" "edge (emit evs s) = edge s"
  "trace (emit evs s) = trace s @ evs"
  by (simp_all add: emit_def)

lemma emit_emit: "emit ys (emit xs s) = emit (xs @ ys) s"
  by (simp add: emit_def)

lemma ApplyDeltasForRead_fold:
  "ApplyDeltasForRead h c t ds view callback st = fold callback (h c t ds view) st"
  by (simp add: ApplyDeltasForRead_def)

subsection \<open>The readers\<close>

lemma IsVisible_eq:
  "IsVisible h acc view s =
     (fst (IsVisible_replay h view s) \<and> (for_deleted acc \<or> \<not> snd (IsVisible_replay h view s)),
      emit [Lock, ReadLive, Unlock, Walk] s)"
  by (simp add: IsVisible_def IsVisible_replay_def Let_def emit_fields emit_emit)

lemma IsVisible_callback_step:
  "IsVisible_callback d (ex, del)
     = (ex \<and> action d \<noteq> DELETE_OBJECT, del \<and> action d \<noteq> RECREATE_OBJECT)"
  by (cases "action d") (simp_all add: IsVisible_callback_def)

lemma fold_IsVisible_callback:
  "fold IsVisible_callback ds (ex, del)
     = (ex \<and> DELETE_OBJECT \<notin> action ` set ds, del \<and> RECREATE_OBJECT \<notin> action ` set ds)"
proof (induction ds arbitrary: ex del)
  case Nil
  show ?case by simp
next
  case (Cons d ds)
  show ?case
    by (simp only: fold_simps IsVisible_callback_step Cons.IH) auto
qed

lemma IsVisible_replay_eq:
  "IsVisible_replay h view s
     = (DELETE_OBJECT \<notin> action ` set (applicable h view s),
        deleted (edge s) \<and> RECREATE_OBJECT \<notin> action ` set (applicable h view s))"
  by (simp add: IsVisible_replay_def applicable_def ApplyDeltasForRead_fold fold_IsVisible_callback)

lemma read_flags_GetProperty:
  "fst (GetProperty_callback k d st) = (fst st \<and> action d \<noteq> DELETE_OBJECT)"
  "fst (snd (GetProperty_callback k d st)) = (fst (snd st) \<and> action d \<noteq> RECREATE_OBJECT)"
  by (cases "action d"; simp add: GetProperty_callback_def)+

lemma read_flags_Properties:
  "fst (Properties_callback d st) = (fst st \<and> action d \<noteq> DELETE_OBJECT)"
  "fst (snd (Properties_callback d st)) = (fst (snd st) \<and> action d \<noteq> RECREATE_OBJECT)"
  by (cases "action d"; simp add: Properties_callback_def split: option.split)+

lemma fold_read_flags:
  assumes "\<And>d st. fst (f d st) = (fst st \<and> action d \<noteq> DELETE_OBJECT)"
    and "\<And>d st. fst (snd (f d st)) = (fst (snd st) \<and> action d \<noteq> RECREATE_OBJECT)"
  shows "fst (fold f ds st) = (fst st \<and> DELETE_OBJECT \<notin> action ` set ds)
         \<and> fst (snd (fold f ds st)) = (fst (snd st) \<and> RECREATE_OBJECT \<notin> action ` set ds)"
proof (induction ds arbitrary: st)
  case Nil
  show ?case by simp
next
  case (Cons d ds)
  show ?case by (simp add: Cons.IH assms) auto
qed

lemma GetProperty_eq:
  assumes "properties_on_edges (config acc)"
  shows "GetProperty h acc k view s =
           (read_result acc (GetProperty_replay h k view s), emit [Lock, ReadLive, Unlock, Walk] s)"
  using assms by (simp add: GetProperty_def GetProperty_replay_def Let_def emit_fields emit_emit)

lemma Properties_eq:
  assumes "properties_on_edges (config acc)"
  shows "Properties h acc view s =
           (read_result acc (Properties_replay h view s), emit [Lock, ReadLive, Unlock, Walk] s)"
  using assms by (simp add: Properties_def Properties_replay_def Let_def emit_fields emit_emit)

lemma GetProperty_replay_flags:
  "fst (GetProperty_replay h k view s) = (DELETE_OBJECT \<notin> action ` set (applicable h view s))"
  "fst (snd (GetProperty_replay h k view s))
     = (deleted (edge s) \<and> RECREATE_OBJECT \<notin> action ` set (applicable h view s))"
  using fold_read_flags [of "GetProperty_callback k", OF read_flags_GetProperty]
  by (simp_all add: GetProperty_replay_def applicable_def ApplyDeltasForRead_fold)

lemma Properties_replay_flags:
  "fst (Properties_replay h view s) = (DELETE_OBJECT \<notin> action ` set (applicable h view s))"
  "fst (snd (Properties_replay h view s))
     = (deleted (edge s) \<and> RECREATE_OBJECT \<notin> action ` set (applicable h view s))"
  using fold_read_flags [of Properties_callback, OF read_flags_Properties]
  by (simp_all add: Properties_replay_def applicable_def ApplyDeltasForRead_fold)

subsection \<open>Maps and the undo of the specification\<close>

lemma map_of_std_erase: "map_of (std_erase k m) = (map_of m)(k := None)"
  by (induction m) (auto simp: std_erase_def)

lemma map_of_std_set_second: "map_of (std_set_second k v m) = (if map_of m k = None then map_of m else (map_of m)(k \<mapsto> v))"
  by (induction m) (auto simp: std_set_second_def)

lemma map_of_std_emplace:
  "map_of m k = None \<Longrightarrow> map_of (std_emplace k v m) = (map_of m)(k \<mapsto> v)"
  by (induction m) (auto simp: fun_eq_iff)

lemma get_after_set:
  "PropertyStore_GetProperty (PropertyStore_SetProperty k v ps) k = v"
  by (cases "map_of ps k")
     (auto simp: PropertyStore_GetProperty_def PropertyStore_SetProperty_def IsNull_def std_find_def
        std_subscript_assign_def map_of_std_erase map_of_std_set_second map_of_std_emplace)

lemma Properties_callback_refines:
  "apsnd (apsnd map_of) (Properties_callback d st) = Resolver_undo d (apsnd (apsnd map_of) st)"
  by (cases "action d"; cases st)
     (auto simp: Properties_callback_def Resolver_undo_def undo_property_def IsNull_def std_find_def
        map_of_std_erase map_of_std_set_second map_of_std_emplace split: option.splits)

lemma fold_refines:
  assumes "\<And>d st. ab (f d st) = g d (ab st)"
  shows "ab (fold f ds st) = fold g ds (ab st)"
  by (induction ds arbitrary: st) (simp_all add: assms)

lemma GetProperty_callback_refines:
  "GetProperty_callback k d (apsnd (apsnd (\<lambda>m. value_of m k)) st)
     = apsnd (apsnd (\<lambda>m. value_of m k)) (Resolver_undo d st)"
  by (cases "action d"; cases st)
     (auto simp: GetProperty_callback_def Resolver_undo_def undo_property_def value_of_def)

lemma fold_refines':
  assumes "\<And>d st. f d (ab st) = ab (g d st)"
  shows "fold f ds (ab st) = ab (fold g ds st)"
  by (induction ds arbitrary: st) (simp_all add: assms)

lemma Properties_replay_undo:
  "apsnd (apsnd map_of) (Properties_replay h view s) = reconstructed h view s"
  using fold_refines [of "apsnd (apsnd map_of)" Properties_callback Resolver_undo,
      OF Properties_callback_refines]
  by (simp add: Properties_replay_def applicable_def ApplyDeltasForRead_fold reconstructed_def)

lemma GetProperty_replay_undo:
  "GetProperty_replay h k view s = apsnd (apsnd (\<lambda>m. value_of m k)) (reconstructed h view s)"
proof -
  have start: "(True, deleted (edge s), PropertyStore_GetProperty (properties (edge s)) k)
      = apsnd (apsnd (\<lambda>m. value_of m k))
          (True, deleted (edge s), map_of (PropertyStore_Properties (properties (edge s))))"
    by (simp add: PropertyStore_GetProperty_def PropertyStore_Properties_def value_of_def
        std_find_def)
  show ?thesis
    unfolding GetProperty_replay_def applicable_def ApplyDeltasForRead_fold start
      reconstructed_def
    by (rule fold_refines' [of "GetProperty_callback k" "apsnd (apsnd (\<lambda>m. value_of m k))"
          Resolver_undo, OF GetProperty_callback_refines])
qed

lemma Properties_replay_map:
  "map_of (snd (snd (Properties_replay h view s))) = snd (snd (reconstructed h view s))"
proof -
  have "snd (snd (apsnd (apsnd map_of) (Properties_replay h view s)))
      = map_of (snd (snd (Properties_replay h view s)))"
    by (cases "Properties_replay h view s") simp
  then show ?thesis by (simp add: Properties_replay_undo)
qed

lemma GetProperty_replay_value:
  "snd (snd (GetProperty_replay h k view s)) = value_of (snd (snd (reconstructed h view s))) k"
  by (cases "reconstructed h view s") (simp add: GetProperty_replay_undo)

subsection \<open>The block that computes ts\<close>

lemma permitted_validator:
  assumes "PrepareForWrite g = Write_Validator (kTransactionInitialId g)"
  shows "permitted g s = (head_state g s \<noteq> HeadForeign)"
  by (simp add: permitted_def assms Write_Validator_def head_state_def split: list.split)

lemma head_state_emit: "head_state g (emit evs s) = head_state g s"
  by (simp add: head_state_def emit_fields split: list.split)

lemma write_ts_emit: "write_ts g (emit evs s) = write_ts g s"
  by (simp add: write_ts_def emit_fields split: list.split)

lemma write_ts_committed:
  "head_state g s = HeadCommitted \<Longrightarrow> write_ts g s = cells s (timestamp (hd (delta (edge s))))"
  by (auto simp: head_state_def write_ts_def split: list.splits if_splits)

lemma write_ts_own:
  "head_state g s = HeadOwn \<Longrightarrow> write_ts g s = Delta.transaction_st (hd (delta (edge s)))"
  by (auto simp: head_state_def write_ts_def split: list.splits if_splits)

lemma write_ts_no_head:
  "head_state g s = NoHead \<Longrightarrow> write_ts g s = transaction_st (edge s)"
  by (auto simp: head_state_def write_ts_def split: list.splits if_splits)

lemma set_transaction_st_foreign:
  "head_state g s = HeadForeign \<Longrightarrow> set_transaction_st g acc s = Inl SERIALIZATION_ERROR"
  by (auto simp: head_state_def set_transaction_st_def Let_def split: list.splits if_splits)

lemma set_transaction_st_no_head:
  "head_state g s = NoHead \<Longrightarrow>
     set_transaction_st g acc s = Inr (write_ts g s, append_prinfEdge g acc (write_ts g s) True s)"
  by (auto simp: head_state_def set_transaction_st_def write_ts_def Let_def split: list.splits if_splits)

lemma set_transaction_st_own:
  "head_state g s = HeadOwn \<Longrightarrow> set_transaction_st g acc s = Inr (write_ts g s, s)"
  by (auto simp: head_state_def set_transaction_st_def write_ts_def append_prinfEdge_def Let_def
      split: list.splits if_splits)

lemma set_transaction_st_committed:
  "head_state g s = HeadCommitted \<Longrightarrow>
     set_transaction_st g acc s =
       Inr (write_ts g s,
            append_prinfEdge g acc (write_ts g s) True (anchor_bookkeeping g acc (write_ts g s) s))"
  by (auto simp: head_state_def set_transaction_st_def write_ts_def Let_def split: list.splits if_splits)

lemma append_prinfEdge_frame:
  "cells (append_prinfEdge g acc ts b s) = cells s"
  "edge (append_prinfEdge g acc ts b s) = edge s"
  "trace (append_prinfEdge g acc ts b s) = trace s"
  "gid_anchor_edge (txn (append_prinfEdge g acc ts b s)) = gid_anchor_edge (txn s)"
  "commit_timestamp (txn (append_prinfEdge g acc ts b s)) = commit_timestamp (txn s)"
  by (simp_all add: append_prinfEdge_def Let_def)

lemma anchor_bookkeeping_frame:
  "cells (anchor_bookkeeping g acc ts s) = cells s"
  "trace (anchor_bookkeeping g acc ts s) = trace s"
  "edge (anchor_bookkeeping g acc ts s) = (edge s)\<lparr>num := anchored_num acc (num (edge s))\<rparr>"
  "commit_timestamp (txn (anchor_bookkeeping g acc ts s)) = commit_timestamp (txn s)"
  "gid_anchor_edge (txn (anchor_bookkeeping g acc ts s)) = anchored_archive g acc ts s"
  by (simp_all add: anchor_bookkeeping_def anchored_num_def anchored_archive_def Let_def)

lemma anchored_archive_emit:
  "anchored_archive g acc ts (emit evs s) = anchored_archive g acc ts s"
  by (simp add: anchored_archive_def emit_fields)

lemma anchored_archive_length:
  assumes "gid_anchor_edge (txn s) = []"
  shows "length (anchored_archive g acc ts s)
           = (if AnchorNum (config acc) < num (edge s) + 1 \<and> AnchorFlag g then 1 else 0)"
  using assms by (simp add: anchored_archive_def std_subscript_assign_def std_find_def)

lemma set_transaction_st_ok:
  assumes "head_state g s \<noteq> HeadForeign"
  shows "set_transaction_st g acc s = Inr (write_ts g s, after_set_transaction_st g acc s)"
proof (cases "head_state g s")
  case NoHead
  then show ?thesis by (simp add: after_set_transaction_st_def set_transaction_st_no_head)
next
  case HeadCommitted
  then show ?thesis by (simp add: after_set_transaction_st_def set_transaction_st_committed)
next
  case HeadOwn
  then show ?thesis by (simp add: after_set_transaction_st_def set_transaction_st_own)
next
  case HeadForeign
  with assms show ?thesis by simp
qed

lemma after_committed:
  assumes "head_state g s = HeadCommitted"
  shows "cells (after_set_transaction_st g acc s) = cells s"
    and "trace (after_set_transaction_st g acc s) = trace s"
    and "commit_timestamp (txn (after_set_transaction_st g acc s)) = commit_timestamp (txn s)"
    and "edge (after_set_transaction_st g acc s) = (edge s)\<lparr>num := anchored_num acc (num (edge s))\<rparr>"
    and "gid_anchor_edge (txn (after_set_transaction_st g acc s))
           = anchored_archive g acc (write_ts g s) s"
  by (simp_all add: after_set_transaction_st_def set_transaction_st_committed [OF assms]
      append_prinfEdge_frame anchor_bookkeeping_frame)

lemma after_not_committed:
  assumes "head_state g s = NoHead \<or> head_state g s = HeadOwn"
  shows "cells (after_set_transaction_st g acc s) = cells s"
    and "trace (after_set_transaction_st g acc s) = trace s"
    and "commit_timestamp (txn (after_set_transaction_st g acc s)) = commit_timestamp (txn s)"
    and "edge (after_set_transaction_st g acc s) = edge s"
    and "gid_anchor_edge (txn (after_set_transaction_st g acc s)) = gid_anchor_edge (txn s)"
  using assms
  by (auto simp: after_set_transaction_st_def set_transaction_st_no_head set_transaction_st_own
      append_prinfEdge_frame)

lemma after_frame:
  assumes "head_state g s \<noteq> HeadForeign"
  shows "cells (after_set_transaction_st g acc s) = cells s"
    and "trace (after_set_transaction_st g acc s) = trace s"
    and "commit_timestamp (txn (after_set_transaction_st g acc s)) = commit_timestamp (txn s)"
    and "properties (edge (after_set_transaction_st g acc s)) = properties (edge s)"
    and "delta (edge (after_set_transaction_st g acc s)) = delta (edge s)"
    and "from_gid (edge (after_set_transaction_st g acc s)) = from_gid (edge s)"
    and "to_gid (edge (after_set_transaction_st g acc s)) = to_gid (edge s)"
    and "deleted (edge (after_set_transaction_st g acc s)) = deleted (edge s)"
    and "gid (edge (after_set_transaction_st g acc s)) = gid (edge s)"
proof -
  consider "head_state g s = HeadCommitted" | "head_state g s = NoHead \<or> head_state g s = HeadOwn"
    using assms by (cases "head_state g s") simp_all
  then have "cells (after_set_transaction_st g acc s) = cells s
    \<and> trace (after_set_transaction_st g acc s) = trace s
    \<and> commit_timestamp (txn (after_set_transaction_st g acc s)) = commit_timestamp (txn s)
    \<and> properties (edge (after_set_transaction_st g acc s)) = properties (edge s)
    \<and> delta (edge (after_set_transaction_st g acc s)) = delta (edge s)
    \<and> from_gid (edge (after_set_transaction_st g acc s)) = from_gid (edge s)
    \<and> to_gid (edge (after_set_transaction_st g acc s)) = to_gid (edge s)
    \<and> deleted (edge (after_set_transaction_st g acc s)) = deleted (edge s)
    \<and> gid (edge (after_set_transaction_st g acc s)) = gid (edge s)"
  proof cases
    case 1
    show ?thesis by (simp add: after_committed [OF 1])
  next
    case 2
    show ?thesis by (simp add: after_not_committed [OF 2])
  qed
  then show "cells (after_set_transaction_st g acc s) = cells s"
    and "trace (after_set_transaction_st g acc s) = trace s"
    and "commit_timestamp (txn (after_set_transaction_st g acc s)) = commit_timestamp (txn s)"
    and "properties (edge (after_set_transaction_st g acc s)) = properties (edge s)"
    and "delta (edge (after_set_transaction_st g acc s)) = delta (edge s)"
    and "from_gid (edge (after_set_transaction_st g acc s)) = from_gid (edge s)"
    and "to_gid (edge (after_set_transaction_st g acc s)) = to_gid (edge s)"
    and "deleted (edge (after_set_transaction_st g acc s)) = deleted (edge s)"
    and "gid (edge (after_set_transaction_st g acc s)) = gid (edge s)"
    by simp_all
qed

lemma after_committed_emit:
  assumes "head_state g s = HeadCommitted"
  shows "num (edge (after_set_transaction_st g acc (emit evs s))) = anchored_num acc (num (edge s))"
    and "gid_anchor_edge (txn (after_set_transaction_st g acc (emit evs s)))
           = anchored_archive g acc (write_ts g s) s"
proof -
  have c: "head_state g (emit evs s) = HeadCommitted"
    using assms by (simp add: head_state_emit)
  show "num (edge (after_set_transaction_st g acc (emit evs s))) = anchored_num acc (num (edge s))"
    by (simp add: after_committed(4) [OF c] emit_fields)
  show "gid_anchor_edge (txn (after_set_transaction_st g acc (emit evs s)))
           = anchored_archive g acc (write_ts g s) s"
    by (simp add: after_committed(5) [OF c] write_ts_emit anchored_archive_emit)
qed

subsection \<open>The outcomes of a write\<close>

lemma link_undo_delta_eq:
  "link_undo_delta t ts k v e
     = e\<lparr>delta := undo_delta (commit_timestamp t) (from_gid e) (to_gid e) ts (k, v) # delta e\<rparr>"
  by (simp add: link_undo_delta_def CreateAndLinkDelta_def undo_delta_def Let_def)

lemma ClearProperties_loop_eq:
  "ClearProperties_loop t ts ps e
     = e\<lparr>delta := rev (map (undo_delta (commit_timestamp t) (from_gid e) (to_gid e) ts) ps) @ delta e\<rparr>"
  by (induction ps arbitrary: e) (simp_all add: link_undo_delta_eq)

lemma SetProperty_refused:
  assumes "properties_on_edges (config acc)" and "\<not> permitted g s"
  shows "SetProperty g acc k v s = (Inl SERIALIZATION_ERROR, emit [Lock, Unlock] s)"
  using assms by (simp add: SetProperty_def Let_def permitted_def emit_emit emit_fields)

lemma ClearProperties_refused:
  assumes "properties_on_edges (config acc)" and "\<not> permitted g s"
  shows "ClearProperties g acc s = (Inl SERIALIZATION_ERROR, emit [Lock, Unlock] s)"
  using assms by (simp add: ClearProperties_def Let_def permitted_def emit_emit emit_fields)

lemma SetProperty_deleted:
  assumes "properties_on_edges (config acc)" and "permitted g s" and "deleted (edge s)"
  shows "SetProperty g acc k v s = (Inl DELETED_OBJECT, emit [Lock, Unlock] s)"
  using assms by (simp add: SetProperty_def Let_def permitted_def emit_emit emit_fields)

lemma ClearProperties_deleted:
  assumes "properties_on_edges (config acc)" and "permitted g s" and "deleted (edge s)"
  shows "ClearProperties g acc s = (Inl DELETED_OBJECT, emit [Lock, Unlock] s)"
  using assms by (simp add: ClearProperties_def Let_def permitted_def emit_emit emit_fields)

lemma SetProperty_foreign:
  assumes "properties_on_edges (config acc)" and "\<not> deleted (edge s)"
    and "head_state g s = HeadForeign"
  shows "SetProperty g acc k v s = (Inl SERIALIZATION_ERROR, emit [Lock, Unlock] s)"
proof (cases "permitted g s")
  case False
  with assms(1) show ?thesis by (rule SetProperty_refused)
next
  case True
  have "set_transaction_st g acc (emit [Lock] s) = Inl SERIALIZATION_ERROR"
    by (rule set_transaction_st_foreign) (simp add: head_state_emit assms(3))
  with assms(1,2) True show ?thesis
    by (simp add: SetProperty_def Let_def permitted_def emit_emit emit_fields)
qed

lemma ClearProperties_foreign:
  assumes "properties_on_edges (config acc)" and "\<not> deleted (edge s)"
    and "head_state g s = HeadForeign"
  shows "ClearProperties g acc s = (Inl SERIALIZATION_ERROR, emit [Lock, Unlock] s)"
proof (cases "permitted g s")
  case False
  with assms(1) show ?thesis by (rule ClearProperties_refused)
next
  case True
  have "set_transaction_st g acc (emit [Lock] s) = Inl SERIALIZATION_ERROR"
    by (rule set_transaction_st_foreign) (simp add: head_state_emit assms(3))
  with assms(1,2) True show ?thesis
    by (simp add: ClearProperties_def Let_def permitted_def emit_emit emit_fields)
qed

lemma SetProperty_run:
  assumes "properties_on_edges (config acc)" and "permitted g s"
    and "head_state g s \<noteq> HeadForeign" and "\<not> deleted (edge s)"
  shows "SetProperty g acc k v s =
     (Inr (PropertyStore_GetProperty (properties (edge s)) k),
      emit [Unlock]
        ((after_set_transaction_st g acc (emit [Lock] s))
           \<lparr>edge := (edge (after_set_transaction_st g acc (emit [Lock] s)))
              \<lparr>delta := undo_delta (commit_timestamp (txn s)) (from_gid (edge s)) (to_gid (edge s))
                          (write_ts g s) (k, PropertyStore_GetProperty (properties (edge s)) k)
                        # delta (edge s),
               properties := PropertyStore_SetProperty k v (properties (edge s))\<rparr>\<rparr>))"
proof -
  have nf: "head_state g (emit [Lock] s) \<noteq> HeadForeign"
    using assms(3) by (simp add: head_state_emit)
  note fr = after_frame [OF nf, of acc, unfolded emit_fields]
  show ?thesis
    using assms(1,2,4)
    by (simp add: SetProperty_def Let_def permitted_def emit_fields
        set_transaction_st_ok [OF nf] write_ts_emit link_undo_delta_eq fr)
qed

lemma ClearProperties_run:
  assumes "properties_on_edges (config acc)" and "permitted g s"
    and "head_state g s \<noteq> HeadForeign" and "\<not> deleted (edge s)"
  shows "ClearProperties g acc s =
     (Inr (PropertyStore_Properties (properties (edge s))),
      emit [Unlock]
        ((after_set_transaction_st g acc (emit [Lock] s))
           \<lparr>edge := (edge (after_set_transaction_st g acc (emit [Lock] s)))
              \<lparr>delta := rev (map (undo_delta (commit_timestamp (txn s)) (from_gid (edge s))
                                     (to_gid (edge s)) (write_ts g s))
                                (PropertyStore_Properties (properties (edge s))))
                        @ delta (edge s),
               properties := PropertyStore_ClearProperties (properties (edge s))\<rparr>\<rparr>))"
proof -
  have nf: "head_state g (emit [Lock] s) \<noteq> HeadForeign"
    using assms(3) by (simp add: head_state_emit)
  note fr = after_frame [OF nf, of acc, unfolded emit_fields]
  show ?thesis
    using assms(1,2,4)
    by (simp add: ClearProperties_def Let_def permitted_def emit_fields
        set_transaction_st_ok [OF nf] write_ts_emit ClearProperties_loop_eq fr)
qed

lemma SetProperty_Inr:
  assumes "fst (SetProperty g acc k v s) = Inr x"
  shows "properties_on_edges (config acc)" and "permitted g s"
    and "head_state g s \<noteq> HeadForeign" and "\<not> deleted (edge s)"
proof -
  show on: "properties_on_edges (config acc)"
    using assms by (auto simp: SetProperty_def split: if_splits)
  show ok: "permitted g s"
    using assms SetProperty_refused [OF on, of g s k v] by (cases "permitted g s") simp_all
  show live: "\<not> deleted (edge s)"
    using assms SetProperty_deleted [OF on ok, of k v] by auto
  show "head_state g s \<noteq> HeadForeign"
    using assms SetProperty_foreign [OF on live, of g k v] by auto
qed

lemma ClearProperties_Inr:
  assumes "fst (ClearProperties g acc s) = Inr x"
  shows "properties_on_edges (config acc)" and "permitted g s"
    and "head_state g s \<noteq> HeadForeign" and "\<not> deleted (edge s)"
proof -
  show on: "properties_on_edges (config acc)"
    using assms by (auto simp: ClearProperties_def split: if_splits)
  show ok: "permitted g s"
    using assms ClearProperties_refused [OF on, of g s] by (cases "permitted g s") simp_all
  show live: "\<not> deleted (edge s)"
    using assms ClearProperties_deleted [OF on ok] by auto
  show "head_state g s \<noteq> HeadForeign"
    using assms ClearProperties_foreign [OF on live, of g] by auto
qed

lemma SetProperty_fields:
  assumes "properties_on_edges (config acc)" and "permitted g s"
    and "head_state g s \<noteq> HeadForeign" and "\<not> deleted (edge s)"
  shows "fst (SetProperty g acc k v s) = Inr (PropertyStore_GetProperty (properties (edge s)) k)"
    and "delta (edge (snd (SetProperty g acc k v s)))
           = undo_delta (commit_timestamp (txn s)) (from_gid (edge s)) (to_gid (edge s))
               (write_ts g s) (k, PropertyStore_GetProperty (properties (edge s)) k)
             # delta (edge s)"
    and "properties (edge (snd (SetProperty g acc k v s)))
           = PropertyStore_SetProperty k v (properties (edge s))"
    and "num (edge (snd (SetProperty g acc k v s)))
           = num (edge (after_set_transaction_st g acc (emit [Lock] s)))"
    and "gid_anchor_edge (txn (snd (SetProperty g acc k v s)))
           = gid_anchor_edge (txn (after_set_transaction_st g acc (emit [Lock] s)))"
  by (simp_all add: SetProperty_run [OF assms] emit_fields)

lemma ClearProperties_fields:
  assumes "properties_on_edges (config acc)" and "permitted g s"
    and "head_state g s \<noteq> HeadForeign" and "\<not> deleted (edge s)"
  shows "fst (ClearProperties g acc s) = Inr (PropertyStore_Properties (properties (edge s)))"
    and "delta (edge (snd (ClearProperties g acc s)))
           = rev (map (undo_delta (commit_timestamp (txn s)) (from_gid (edge s)) (to_gid (edge s))
                        (write_ts g s))
                   (PropertyStore_Properties (properties (edge s))))
             @ delta (edge s)"
    and "properties (edge (snd (ClearProperties g acc s)))
           = PropertyStore_ClearProperties (properties (edge s))"
    and "num (edge (snd (ClearProperties g acc s)))
           = num (edge (after_set_transaction_st g acc (emit [Lock] s)))"
    and "gid_anchor_edge (txn (snd (ClearProperties g acc s)))
           = gid_anchor_edge (txn (after_set_transaction_st g acc (emit [Lock] s)))"
  by (simp_all add: ClearProperties_run [OF assms] emit_fields)

subsection \<open>Runs of committed writes\<close>

lemma edge_write_committed:
  assumes ok: "fst (edge_write g acc w s)" and c: "head_state g s = HeadCommitted"
  shows "num (edge (snd (edge_write g acc w s))) = anchored_num acc (num (edge s))"
    and "gid_anchor_edge (txn (snd (edge_write g acc w s)))
           = anchored_archive g acc (write_ts g s) s"
proof -
  have "num (edge (snd (edge_write g acc w s))) = anchored_num acc (num (edge s))
        \<and> gid_anchor_edge (txn (snd (edge_write g acc w s)))
           = anchored_archive g acc (write_ts g s) s"
  proof (cases w)
    case (WriteSet k v)
    from ok obtain old where r: "fst (SetProperty g acc k v s) = Inr old"
      by (cases "fst (SetProperty g acc k v s)") (simp_all add: edge_write_def WriteSet)
    note ok = SetProperty_Inr [OF r]
    have "snd (edge_write g acc w s) = snd (SetProperty g acc k v s)"
      by (simp add: edge_write_def WriteSet split: sum.split)
    then show ?thesis
      by (simp add: SetProperty_fields(4,5) [OF ok] after_committed_emit [OF c])
  next
    case WriteClear
    from ok obtain old where r: "fst (ClearProperties g acc s) = Inr old"
      by (cases "fst (ClearProperties g acc s)") (simp_all add: edge_write_def WriteClear)
    note ok = ClearProperties_Inr [OF r]
    have "snd (edge_write g acc w s) = snd (ClearProperties g acc s)"
      by (simp add: edge_write_def WriteClear split: sum.split)
    then show ?thesis
      by (simp add: ClearProperties_fields(4,5) [OF ok] after_committed_emit [OF c])
  qed
  then show "num (edge (snd (edge_write g acc w s))) = anchored_num acc (num (edge s))"
    and "gid_anchor_edge (txn (snd (edge_write g acc w s)))
           = anchored_archive g acc (write_ts g s) s"
    by simp_all
qed

lemma committed_writes_Cons:
  assumes "committed_writes g acc (step # steps) (c, e) = Some (n, c', e')"
  shows "\<exists>m s'. s' = snd (edge_write g acc (fst (snd step))
                          \<lparr>cells = c, txn = fst step, edge = e, trace = []\<rparr>)
           \<and> head_state g \<lparr>cells = c, txn = fst step, edge = e, trace = []\<rparr> = HeadCommitted
           \<and> gid_anchor_edge (fst step) = []
           \<and> fst (edge_write g acc (fst (snd step))
                    \<lparr>cells = c, txn = fst step, edge = e, trace = []\<rparr>)
           \<and> committed_writes g acc steps (snd (snd step), edge s') = Some (m, c', e')
           \<and> n = length (gid_anchor_edge (txn s')) + m"
  using assms by (auto simp: Let_def split: if_splits option.splits)

lemma committed_write_counts:
  assumes "committed_writes g acc (step # steps) (c, e) = Some (n, c', e')"
  obtains m e1 c1 where
    "committed_writes g acc steps (c1, e1) = Some (m, c', e')"
    "num e1 = anchored_num acc (num e)"
    "n = (if AnchorNum (config acc) < num e + 1 \<and> AnchorFlag g then 1 else 0) + m"
proof -
  from committed_writes_Cons [OF assms] obtain m s' where
    s': "s' = snd (edge_write g acc (fst (snd step))
                    \<lparr>cells = c, txn = fst step, edge = e, trace = []\<rparr>)"
    and hc: "head_state g \<lparr>cells = c, txn = fst step, edge = e, trace = []\<rparr> = HeadCommitted"
    and fresh: "gid_anchor_edge (fst step) = []"
    and ok: "fst (edge_write g acc (fst (snd step))
                    \<lparr>cells = c, txn = fst step, edge = e, trace = []\<rparr>)"
    and rest: "committed_writes g acc steps (snd (snd step), edge s') = Some (m, c', e')"
    and n: "n = length (gid_anchor_edge (txn s')) + m"
    by blast
  have "num (edge s') = anchored_num acc (num e)"
    using edge_write_committed(1) [OF ok hc] by (simp add: s')
  moreover have "length (gid_anchor_edge (txn s'))
      = (if AnchorNum (config acc) < num e + 1 \<and> AnchorFlag g then 1 else 0)"
    using edge_write_committed(2) [OF ok hc]
      anchored_archive_length [of "\<lparr>cells = c, txn = fst step, edge = e, trace = []\<rparr>" g acc]
    by (simp add: s' fresh)
  ultimately show ?thesis
    using rest n by (intro that [of "snd (snd step)" "edge s'" m]) simp_all
qed

lemma cadence_exact:
  assumes "committed_writes g acc steps (c, e) = Some (n, c', e')"
    and "AnchorFlag g" and "num e + length steps = AnchorNum (config acc) + 1"
    and "steps \<noteq> []"
  shows "n = 1 \<and> num e' = 1"
  using assms
proof (induction steps arbitrary: c e n)
  case Nil
  then show ?case by simp
next
  case (Cons step steps)
  from committed_write_counts [OF Cons.prems(1)] obtain m e1 c1 where
    rest: "committed_writes g acc steps (c1, e1) = Some (m, c', e')"
    and e1: "num e1 = anchored_num acc (num e)"
    and n: "n = (if AnchorNum (config acc) < num e + 1 \<and> AnchorFlag g then 1 else 0) + m"
    by blast
  show ?case
  proof (cases "steps = []")
    case True
    with rest have "m = 0" and "e' = e1" by simp_all
    moreover from True Cons.prems(3) have "num e = AnchorNum (config acc)" by simp
    ultimately show ?thesis
      using n e1 Cons.prems(2) by (simp add: anchored_num_def)
  next
    case False
    then have "0 < length steps" by simp
    with Cons.prems(3) have below: "num e + 1 \<le> AnchorNum (config acc)" by (simp del: length_greater_0_conv)
    then have up: "num e1 = num e + 1" using e1 by (simp add: anchored_num_def)
    have "m = 1 \<and> num e' = 1"
      using Cons.IH [OF rest Cons.prems(2) _ False] Cons.prems(3) up by simp
    with n below show ?thesis by simp
  qed
qed

subsection \<open>The concrete inputs\<close>

lemma head_state_examples:
  "head_state globals0 (state0 (edge0 b (delta0 a 13 # ds) n)) = HeadForeign"
  "head_state globals0 (state0 (edge0 b (delta0 a 11 # ds) n)) = HeadCommitted"
  "head_state globals0 (state0 (edge0 b (delta0 a 12 # ds) n)) = HeadOwn"
  "head_state globals0 (state0 (edge0 b [] n)) = NoHead"
  by (simp_all add: head_state_def globals0_def state0_def edge0_def delta0_def cells0_def txn0_def)

lemma validator_globals0:
  "PrepareForWrite globals0 = Write_Validator (kTransactionInitialId globals0)"
  by (simp add: globals0_def)

lemma permitted_examples: "permitted globals0 s = (head_state globals0 s \<noteq> HeadForeign)"
  by (rule permitted_validator [OF validator_globals0])

lemma accessor0_fields:
  "properties_on_edges (config (accessor0 items_on fd))"
  "\<not> properties_on_edges (config (accessor0 items_off fd))"
  "AnchorNum (config (accessor0 items_on fd)) = 1"
  "for_deleted (accessor0 cfg fd) = fd"
  by (simp_all add: accessor0_def items_on_def items_off_def)

lemma state0_fields:
  "cells (state0 e) = cells0" "txn (state0 e) = txn0" "edge (state0 e) = e" "trace (state0 e) = []"
  by (simp_all add: state0_def)

lemma edge0_fields:
  "deleted (edge0 b ds n) = b" "delta (edge0 b ds n) = ds" "num (edge0 b ds n) = n"
  "gid (edge0 b ds n) = 7" "from_gid (edge0 b ds n) = 20" "to_gid (edge0 b ds n) = 21"
  "transaction_st (edge0 b ds n) = 2"
  "properties (edge0 b ds n) = [(2, Integer 42), (3, Text ''x'')]"
  by (simp_all add: edge0_def)

lemmas store_defs =
  PropertyStore_GetProperty_def PropertyStore_SetProperty_def PropertyStore_Properties_def
  PropertyStore_ClearProperties_def IsNull_def std_find_def std_erase_def std_set_second_def
  std_subscript_assign_def

lemmas example_defs =
  globals0_def cells0_def cells1_def txn0_def txn1_def items_on_def items_off_def accessor0_def delta0_def
  undo0_def edge0_def state0_def resolver0_def

lemmas write_defs =
  SetProperty_def ClearProperties_def Write_Validator_def set_transaction_st_def
  anchor_bookkeeping_def append_prinfEdge_def link_undo_delta_def CreateAndLinkDelta_def
  emit_def Let_def

lemmas read_defs =
  ApplyDeltasForRead_def IsVisible_replay_def GetProperty_replay_def Properties_replay_def applicable_def
  IsVisible_callback_def GetProperty_callback_def Properties_callback_def read_result_def

section \<open>The write validator\<close>

text \<open>
  C1. With \<^verbatim>\<open>properties_on_edges\<close> on (the calls that reach the validator), a call of
  \<^verbatim>\<open>SetProperty\<close> or \<^verbatim>\<open>ClearProperties\<close> on an edge whose head delta has a timestamp cell
  in uncommitted form that holds the id of another transaction returns
  \<^verbatim>\<open>SERIALIZATION_ERROR\<close> and leaves the edge (deleted flag, property map, delta chain,
  write-count), the transaction and the cells as they were; when the head delta is owned by
  the calling transaction, or is committed, or there is none, the call does not return
  \<^verbatim>\<open>SERIALIZATION_ERROR\<close>, and on a live edge it succeeds. \<^verbatim>\<open>PrepareForWrite\<close> answers here
  as the write validator of the specification; on a live edge the rejection holds whatever
  \<^verbatim>\<open>PrepareForWrite\<close> answers (lines 107 to 115 and 171 to 179).
\<close>

theorem first_writer_wins:
  "(properties_on_edges (config acc) \<and> head_state g s = HeadForeign \<and> \<not> deleted (edge s) \<longrightarrow>
      rejected_unchanged (SetProperty g acc k v s) s
      \<and> rejected_unchanged (ClearProperties g acc s) s)
   \<and> (PrepareForWrite g = Write_Validator (kTransactionInitialId g) \<longrightarrow>
        (properties_on_edges (config acc) \<and> head_state g s = HeadForeign \<longrightarrow>
           rejected_unchanged (SetProperty g acc k v s) s
           \<and> rejected_unchanged (ClearProperties g acc s) s)
        \<and> (head_state g s \<noteq> HeadForeign \<longrightarrow>
           fst (SetProperty g acc k v s) \<noteq> Inl SERIALIZATION_ERROR
           \<and> fst (ClearProperties g acc s) \<noteq> Inl SERIALIZATION_ERROR)
        \<and> (properties_on_edges (config acc) \<and> head_state g s \<noteq> HeadForeign
             \<and> \<not> deleted (edge s) \<longrightarrow>
           fst (SetProperty g acc k v s) = Inr (PropertyStore_GetProperty (properties (edge s)) k)
           \<and> fst (ClearProperties g acc s) = Inr (PropertyStore_Properties (properties (edge s)))))"
proof (intro conjI impI)
  assume "properties_on_edges (config acc) \<and> head_state g s = HeadForeign \<and> \<not> deleted (edge s)"
  then have on: "properties_on_edges (config acc)" and f: "head_state g s = HeadForeign"
    and live: "\<not> deleted (edge s)"
    by simp_all
  show "rejected_unchanged (SetProperty g acc k v s) s"
    by (simp add: SetProperty_foreign [OF on live f] rejected_unchanged_def emit_fields)
  show "rejected_unchanged (ClearProperties g acc s) s"
    by (simp add: ClearProperties_foreign [OF on live f] rejected_unchanged_def emit_fields)
next
  assume V: "PrepareForWrite g = Write_Validator (kTransactionInitialId g)"
  assume "properties_on_edges (config acc) \<and> head_state g s = HeadForeign"
  then have on: "properties_on_edges (config acc)" and no: "\<not> permitted g s"
    by (simp_all add: permitted_validator [OF V])
  show "rejected_unchanged (SetProperty g acc k v s) s"
    by (simp add: SetProperty_refused [OF on no] rejected_unchanged_def emit_fields)
  show "rejected_unchanged (ClearProperties g acc s) s"
    by (simp add: ClearProperties_refused [OF on no] rejected_unchanged_def emit_fields)
next
  assume V: "PrepareForWrite g = Write_Validator (kTransactionInitialId g)"
  assume nf: "head_state g s \<noteq> HeadForeign"
  then have ok: "permitted g s" by (simp add: permitted_validator [OF V])
  show "fst (SetProperty g acc k v s) \<noteq> Inl SERIALIZATION_ERROR"
  proof (cases "properties_on_edges (config acc)")
    case False
    then show ?thesis by (simp add: SetProperty_def)
  next
    case True
    show ?thesis
      using SetProperty_deleted [OF True ok, of k v] SetProperty_fields(1) [OF True ok nf, of k v]
      by (cases "deleted (edge s)") simp_all
  qed
  show "fst (ClearProperties g acc s) \<noteq> Inl SERIALIZATION_ERROR"
  proof (cases "properties_on_edges (config acc)")
    case False
    then show ?thesis by (simp add: ClearProperties_def)
  next
    case True
    show ?thesis
      using ClearProperties_deleted [OF True ok] ClearProperties_fields(1) [OF True ok nf]
      by (cases "deleted (edge s)") simp_all
  qed
next
  assume V: "PrepareForWrite g = Write_Validator (kTransactionInitialId g)"
  assume a: "properties_on_edges (config acc) \<and> head_state g s \<noteq> HeadForeign
             \<and> \<not> deleted (edge s)"
  then have ok: "permitted g s" by (simp add: permitted_validator [OF V])
  from a ok show "fst (SetProperty g acc k v s)
      = Inr (PropertyStore_GetProperty (properties (edge s)) k)"
    by (simp add: SetProperty_fields(1))
  from a ok show "fst (ClearProperties g acc s)
      = Inr (PropertyStore_Properties (properties (edge s)))"
    by (simp add: ClearProperties_fields(1))
qed

theorem first_writer_wins_witness:
  "fst (SetProperty globals0 (accessor0 items_on False) 2 (Integer 1)
         (state0 (edge0 False [delta0 SET_PROPERTY 13] 0))) = Inl SERIALIZATION_ERROR
   \<and> edge (snd (SetProperty globals0 (accessor0 items_on False) 2 (Integer 1)
                    (state0 (edge0 False [delta0 SET_PROPERTY 13] 0))))
       = edge0 False [delta0 SET_PROPERTY 13] 0
   \<and> fst (ClearProperties globals0 (accessor0 items_on False)
         (state0 (edge0 True [delta0 SET_PROPERTY 13] 0))) = Inl SERIALIZATION_ERROR
   \<and> edge (snd (ClearProperties globals0 (accessor0 items_on False)
                    (state0 (edge0 True [delta0 SET_PROPERTY 13] 0))))
       = edge0 True [delta0 SET_PROPERTY 13] 0
   \<and> fst (SetProperty globals0 (accessor0 items_on False) 2 (Integer 1)
         (state0 (edge0 False [delta0 SET_PROPERTY 11] 0))) = Inr (Integer 42)
   \<and> fst (ClearProperties globals0 (accessor0 items_on False)
         (state0 (edge0 False [delta0 SET_PROPERTY 12] 0))) = Inr [(2, Integer 42), (3, Text ''x'')]
   \<and> fst (SetProperty globals0 (accessor0 items_on False) 2 (Integer 1)
         (state0 (edge0 True [] 0))) \<noteq> Inl SERIALIZATION_ERROR"
proof -
  note on = accessor0_fields(1) [of False]
  show ?thesis
    using first_writer_wins [of "accessor0 items_on False" globals0
        "state0 (edge0 False [delta0 SET_PROPERTY 13] 0)" 2 "Integer 1"]
      first_writer_wins [of "accessor0 items_on False" globals0
        "state0 (edge0 True [delta0 SET_PROPERTY 13] 0)" 2 "Integer 1"]
      first_writer_wins [of "accessor0 items_on False" globals0
        "state0 (edge0 False [delta0 SET_PROPERTY 11] 0)" 2 "Integer 1"]
      first_writer_wins [of "accessor0 items_on False" globals0
        "state0 (edge0 False [delta0 SET_PROPERTY 12] 0)" 2 "Integer 1"]
      first_writer_wins [of "accessor0 items_on False" globals0
        "state0 (edge0 True [] 0)" 2 "Integer 1"]
    by (simp add: validator_globals0 rejected_unchanged_def head_state_examples on state0_fields
        edge0_fields store_defs)
qed

section \<open>Anchor bookkeeping\<close>

text \<open>
  C2. A successful \<^verbatim>\<open>SetProperty\<close> or \<^verbatim>\<open>ClearProperties\<close> on a committed head increments
  the write-count, resets it to 1 when it exceeds \<^verbatim>\<open>AnchorNum\<close> and, on a reset with anchoring
  enabled, stores the property map the edge has before the write in the archive of the
  calling transaction under the key (gid, timestamp read from the head delta). So a run of
  \<^verbatim>\<open>AnchorNum + 1\<close> committed writes to an edge whose write-count starts at 0, with anchoring
  enabled, captures exactly one snapshot and leaves the write-count at 1.
\<close>

theorem anchor_cadence:
  "(head_state g s = HeadCommitted \<and> fst (SetProperty g acc k v s) = Inr old \<longrightarrow>
      num (edge (snd (SetProperty g acc k v s))) = anchored_num acc (num (edge s))
      \<and> gid_anchor_edge (txn (snd (SetProperty g acc k v s)))
          = anchored_archive g acc (cells s (timestamp (hd (delta (edge s))))) s)
   \<and> (head_state g s = HeadCommitted \<and> fst (ClearProperties g acc s) = Inr removed \<longrightarrow>
      num (edge (snd (ClearProperties g acc s))) = anchored_num acc (num (edge s))
      \<and> gid_anchor_edge (txn (snd (ClearProperties g acc s)))
          = anchored_archive g acc (cells s (timestamp (hd (delta (edge s))))) s)
   \<and> (committed_writes g acc steps (c, e) = Some (n, c', e') \<and> AnchorFlag g \<and> num e = 0
        \<and> length steps = AnchorNum (config acc) + 1 \<longrightarrow>
      n = 1 \<and> num e' = 1)"
proof (intro conjI impI)
  assume a: "head_state g s = HeadCommitted \<and> fst (SetProperty g acc k v s) = Inr old"
  then have c: "head_state g s = HeadCommitted" and r: "fst (SetProperty g acc k v s) = Inr old"
    by simp_all
  note ok = SetProperty_Inr [OF r]
  show "num (edge (snd (SetProperty g acc k v s))) = anchored_num acc (num (edge s))"
    by (simp add: SetProperty_fields(4) [OF ok] after_committed_emit [OF c])
  show "gid_anchor_edge (txn (snd (SetProperty g acc k v s)))
          = anchored_archive g acc (cells s (timestamp (hd (delta (edge s))))) s"
    by (simp add: SetProperty_fields(5) [OF ok] after_committed_emit [OF c]
        write_ts_committed [OF c])
next
  assume a: "head_state g s = HeadCommitted \<and> fst (ClearProperties g acc s) = Inr removed"
  then have c: "head_state g s = HeadCommitted" and r: "fst (ClearProperties g acc s) = Inr removed"
    by simp_all
  note ok = ClearProperties_Inr [OF r]
  show "num (edge (snd (ClearProperties g acc s))) = anchored_num acc (num (edge s))"
    by (simp add: ClearProperties_fields(4) [OF ok] after_committed_emit [OF c])
  show "gid_anchor_edge (txn (snd (ClearProperties g acc s)))
          = anchored_archive g acc (cells s (timestamp (hd (delta (edge s))))) s"
    by (simp add: ClearProperties_fields(5) [OF ok] after_committed_emit [OF c]
        write_ts_committed [OF c])
next
  assume a: "committed_writes g acc steps (c, e) = Some (n, c', e') \<and> AnchorFlag g \<and> num e = 0
        \<and> length steps = AnchorNum (config acc) + 1"
  then have "steps \<noteq> []" by auto
  with a cadence_exact [of g acc steps c e n c' e'] have "n = 1 \<and> num e' = 1" by simp
  then show "n = 1" and "num e' = 1" by simp_all
qed

theorem anchor_cadence_witness:
  "map_option fst
     (committed_writes globals0 (accessor0 items_on False)
        [(txn0, WriteSet 2 (Integer 1), cells1), (txn1, WriteClear, cells1)]
        (cells0, edge0 False [delta0 DELETE_OBJECT 11] 0)) = Some 1
   \<and> map_option (num \<circ> snd \<circ> snd)
     (committed_writes globals0 (accessor0 items_on False)
        [(txn0, WriteSet 2 (Integer 1), cells1), (txn1, WriteClear, cells1)]
        (cells0, edge0 False [delta0 DELETE_OBJECT 11] 0)) = Some 1
   \<and> num (edge (snd (SetProperty globals0 (accessor0 items_on False) 2 (Integer 1)
        (state0 (edge0 False [delta0 DELETE_OBJECT 11] 5))))) = 1
   \<and> gid_anchor_edge (txn (snd (SetProperty globals0 (accessor0 items_on False) 2 (Integer 1)
        (state0 (edge0 False [delta0 DELETE_OBJECT 11] 5)))))
       = [((7, 5), [(2, Integer 42), (3, Text ''x'')])]"
proof -
  let ?run = "committed_writes globals0 (accessor0 items_on False)
        [(txn0, WriteSet 2 (Integer 1), cells1), (txn1, WriteClear, cells1)]
        (cells0, edge0 False [delta0 DELETE_OBJECT 11] 0)"
  let ?s = "state0 (edge0 False [delta0 DELETE_OBJECT 11] 5)"
  let ?S = "SetProperty globals0 (accessor0 items_on False) 2 (Integer 1) ?s"
  have "\<exists>n c' e'. ?run = Some (n, c', e')"
    by (simp add: write_defs edge_write_def head_state_def store_defs example_defs)
  then obtain n c' e' where run: "?run = Some (n, c', e')" by blast
  note T = anchor_cadence [of globals0 ?s "accessor0 items_on False" 2 "Integer 1" "Integer 42"
      "[]" "[(txn0, WriteSet 2 (Integer 1), cells1), (txn1, WriteClear, cells1)]"
      cells0 "edge0 False [delta0 DELETE_OBJECT 11] 0" n c' e']
  have "n = 1 \<and> num e' = 1"
    using T run by (simp add: globals0_def accessor0_fields edge0_fields)
  then have r: "map_option fst ?run = Some 1" "map_option (num \<circ> snd \<circ> snd) ?run = Some 1"
    by (simp_all add: run del: committed_writes.simps)
  have nf: "head_state globals0 ?s \<noteq> HeadForeign" and c: "head_state globals0 ?s = HeadCommitted"
    by (simp_all add: head_state_examples)
  have live: "\<not> deleted (edge ?s)"
    by (simp add: state0_fields edge0_fields)
  have pm: "permitted globals0 ?s" using nf by (simp add: permitted_examples)
  have ok: "fst ?S = Inr (Integer 42)"
    using SetProperty_fields(1) [OF accessor0_fields(1) pm nf live, of False 2 "Integer 1"]
    by (simp add: state0_fields edge0_fields store_defs)
  from T c ok have "num (edge (snd ?S)) = anchored_num (accessor0 items_on False) (num (edge ?s))"
    "gid_anchor_edge (txn (snd ?S))
       = anchored_archive globals0 (accessor0 items_on False)
           (cells ?s (timestamp (hd (delta (edge ?s))))) ?s"
    by blast+
  then have w: "num (edge (snd ?S)) = 1"
    "gid_anchor_edge (txn (snd ?S)) = [((7, 5), [(2, Integer 42), (3, Text ''x'')])]"
    by (simp_all add: anchored_num_def anchored_archive_def accessor0_fields state0_fields
        edge0_fields store_defs example_defs)
  from r w show ?thesis by simp
qed

section \<open>The replay of the property readers\<close>

text \<open>
  C3. With properties on, \<^verbatim>\<open>Properties\<close> and \<^verbatim>\<open>GetProperty\<close> take the lock, read the live
  snapshot, release the lock and then walk the chain; their result is the verdict on the
  replay. The replayed property map is the live map with the undo of the specification folded
  over the applicable deltas, in the order the resolver hands them over (a key is set back to
  the prior value of a \<^verbatim>\<open>SET_PROPERTY\<close> delta, inserted when absent, and removed when the
  prior value is null; \<^verbatim>\<open>DELETE_OBJECT\<close> clears \<open>exists\<close>, \<^verbatim>\<open>RECREATE_OBJECT\<close> clears
  \<open>deleted\<close>), and the replayed value of a key is the value that map gives it.
\<close>

theorem reads_fold_undo:
  assumes "properties_on_edges (config acc)"
  shows "Properties h acc view s
           = (read_result acc (Properties_replay h view s), emit [Lock, ReadLive, Unlock, Walk] s)
         \<and> GetProperty h acc k view s
           = (read_result acc (GetProperty_replay h k view s), emit [Lock, ReadLive, Unlock, Walk] s)
         \<and> apsnd (apsnd map_of) (Properties_replay h view s)
           = fold Resolver_undo (applicable h view s)
               (True, deleted (edge s), map_of (PropertyStore_Properties (properties (edge s))))
         \<and> GetProperty_replay h k view s
           = apsnd (apsnd (\<lambda>m. value_of m k))
               (fold Resolver_undo (applicable h view s)
                  (True, deleted (edge s), map_of (PropertyStore_Properties (properties (edge s)))))"
proof (intro conjI)
  show "Properties h acc view s
           = (read_result acc (Properties_replay h view s), emit [Lock, ReadLive, Unlock, Walk] s)"
    by (rule Properties_eq [OF assms])
  show "GetProperty h acc k view s
           = (read_result acc (GetProperty_replay h k view s), emit [Lock, ReadLive, Unlock, Walk] s)"
    by (rule GetProperty_eq [OF assms])
  show "apsnd (apsnd map_of) (Properties_replay h view s)
           = fold Resolver_undo (applicable h view s)
               (True, deleted (edge s), map_of (PropertyStore_Properties (properties (edge s))))"
    using fold_refines [of "apsnd (apsnd map_of)" Properties_callback Resolver_undo,
        OF Properties_callback_refines]
    by (simp add: Properties_replay_def applicable_def ApplyDeltasForRead_fold)
  have start: "(True, deleted (edge s), PropertyStore_GetProperty (properties (edge s)) k)
      = apsnd (apsnd (\<lambda>m. value_of m k))
          (True, deleted (edge s), map_of (PropertyStore_Properties (properties (edge s))))"
    by (simp add: PropertyStore_GetProperty_def PropertyStore_Properties_def value_of_def
        std_find_def)
  show "GetProperty_replay h k view s
           = apsnd (apsnd (\<lambda>m. value_of m k))
               (fold Resolver_undo (applicable h view s)
                  (True, deleted (edge s), map_of (PropertyStore_Properties (properties (edge s)))))"
    unfolding GetProperty_replay_def applicable_def ApplyDeltasForRead_fold start
    by (rule fold_refines' [of "GetProperty_callback k" "apsnd (apsnd (\<lambda>m. value_of m k))"
          Resolver_undo, OF GetProperty_callback_refines])
qed

theorem reads_fold_undo_witness:
  "fst (Properties resolver0 (accessor0 items_on False) NEW
         (state0 (edge0 False [undo0 3 Null 13, undo0 4 (Integer 9) 13, delta0 SET_PROPERTY 13,
                               undo0 2 Null 11] 0)))
     = Inr [(2, Integer 41), (4, Integer 9)]
   \<and> fst (GetProperty resolver0 (accessor0 items_on False) 3 NEW
         (state0 (edge0 False [undo0 3 Null 13, undo0 4 (Integer 9) 13, delta0 SET_PROPERTY 13,
                               undo0 2 Null 11] 0)))
     = Inr Null
   \<and> trace (snd (GetProperty resolver0 (accessor0 items_on False) 3 NEW
         (state0 (edge0 False [undo0 3 Null 13, undo0 4 (Integer 9) 13, delta0 SET_PROPERTY 13,
                               undo0 2 Null 11] 0))))
     = [Lock, ReadLive, Unlock, Walk]"
proof -
  have r: "Properties_replay resolver0 NEW
        (state0 (edge0 False [undo0 3 Null 13, undo0 4 (Integer 9) 13, delta0 SET_PROPERTY 13,
                               undo0 2 Null 11] 0))
      = (True, False, [(2, Integer 41), (4, Integer 9)])"
    "GetProperty_replay resolver0 3 NEW
        (state0 (edge0 False [undo0 3 Null 13, undo0 4 (Integer 9) 13, delta0 SET_PROPERTY 13,
                               undo0 2 Null 11] 0))
      = (True, False, Null)"
    by (simp_all add: read_defs store_defs example_defs)
  show ?thesis
    using reads_fold_undo [of "accessor0 items_on False" resolver0 NEW
        "state0 (edge0 False [undo0 3 Null 13, undo0 4 (Integer 9) 13, delta0 SET_PROPERTY 13,
                               undo0 2 Null 11] 0)" 3, OF accessor0_fields(1)]
    by (simp add: r read_result_def accessor0_fields emit_fields state0_fields)
qed

section \<open>The undo deltas of a write\<close>

text \<open>
  C4. A successful \<^verbatim>\<open>SetProperty\<close> returns the value the key had before the call, leaves
  at the chain head one new \<^verbatim>\<open>SET_PROPERTY\<close> delta with the key and that value, and the live
  map holds the new value. A successful \<^verbatim>\<open>ClearProperties\<close> returns the property map as it
  was before the call, has linked one such delta per entry of it, in key order, and leaves the
  live map empty.
\<close>

theorem write_creates_undo_delta:
  "(fst (SetProperty g acc k v s) = Inr old \<longrightarrow>
      old = PropertyStore_GetProperty (properties (edge s)) k
      \<and> (\<exists>d. delta (edge (snd (SetProperty g acc k v s))) = d # delta (edge s)
             \<and> action d = SET_PROPERTY \<and> property_key d = k \<and> property_value d = old)
      \<and> properties (edge (snd (SetProperty g acc k v s)))
          = PropertyStore_SetProperty k v (properties (edge s))
      \<and> PropertyStore_GetProperty (properties (edge (snd (SetProperty g acc k v s)))) k = v)
   \<and> (fst (ClearProperties g acc s) = Inr removed \<longrightarrow>
      removed = PropertyStore_Properties (properties (edge s))
      \<and> (\<exists>ds. delta (edge (snd (ClearProperties g acc s))) = rev ds @ delta (edge s)
             \<and> map (\<lambda>d. (action d, property_key d, property_value d)) ds
                 = map (\<lambda>p. (SET_PROPERTY, fst p, snd p)) removed)
      \<and> PropertyStore_Properties (properties (edge (snd (ClearProperties g acc s)))) = [])"
proof (intro conjI impI)
  assume r: "fst (SetProperty g acc k v s) = Inr old"
  note ok = SetProperty_Inr [OF r]
  note f = SetProperty_fields [OF ok, of k v]
  from r f(1) show old: "old = PropertyStore_GetProperty (properties (edge s)) k" by simp
  show "\<exists>d. delta (edge (snd (SetProperty g acc k v s))) = d # delta (edge s)
             \<and> action d = SET_PROPERTY \<and> property_key d = k \<and> property_value d = old"
    by (simp add: f(2) old undo_delta_def)
  show "properties (edge (snd (SetProperty g acc k v s)))
          = PropertyStore_SetProperty k v (properties (edge s))"
    by (rule f(3))
  show "PropertyStore_GetProperty (properties (edge (snd (SetProperty g acc k v s)))) k = v"
    by (simp add: f(3) get_after_set)
next
  assume r: "fst (ClearProperties g acc s) = Inr removed"
  note ok = ClearProperties_Inr [OF r]
  note f = ClearProperties_fields [OF ok]
  from r f(1) show removed: "removed = PropertyStore_Properties (properties (edge s))" by simp
  have "delta (edge (snd (ClearProperties g acc s)))
          = rev (map (undo_delta (commit_timestamp (txn s)) (from_gid (edge s)) (to_gid (edge s))
                       (write_ts g s)) removed) @ delta (edge s)
        \<and> map (\<lambda>d. (action d, property_key d, property_value d))
              (map (undo_delta (commit_timestamp (txn s)) (from_gid (edge s)) (to_gid (edge s))
                       (write_ts g s)) removed)
            = map (\<lambda>p. (SET_PROPERTY, fst p, snd p)) removed"
    by (simp add: f(2) removed undo_delta_def)
  then show "\<exists>ds. delta (edge (snd (ClearProperties g acc s))) = rev ds @ delta (edge s)
             \<and> map (\<lambda>d. (action d, property_key d, property_value d)) ds
                 = map (\<lambda>p. (SET_PROPERTY, fst p, snd p)) removed"
    by blast
  show "PropertyStore_Properties (properties (edge (snd (ClearProperties g acc s)))) = []"
    by (simp add: f(3) PropertyStore_Properties_def PropertyStore_ClearProperties_def)
qed

theorem write_creates_undo_delta_witness:
  "fst (SetProperty globals0 (accessor0 items_on False) 2 (Integer 1)
         (state0 (edge0 False [delta0 DELETE_OBJECT 11] 0))) = Inr (Integer 42)
   \<and> property_value (hd (delta (edge (snd (SetProperty globals0 (accessor0 items_on False) 2
         (Integer 1) (state0 (edge0 False [delta0 DELETE_OBJECT 11] 0))))))) = Integer 42
   \<and> PropertyStore_GetProperty (properties (edge (snd (SetProperty globals0
         (accessor0 items_on False) 2 (Integer 1) (state0 (edge0 False [delta0 DELETE_OBJECT 11] 0))))))
         2 = Integer 1
   \<and> fst (ClearProperties globals0 (accessor0 items_on False)
         (state0 (edge0 False [delta0 DELETE_OBJECT 11] 0))) = Inr [(2, Integer 42), (3, Text ''x'')]
   \<and> properties (edge (snd (ClearProperties globals0 (accessor0 items_on False)
         (state0 (edge0 False [delta0 DELETE_OBJECT 11] 0))))) = []
   \<and> length (delta (edge (snd (ClearProperties globals0 (accessor0 items_on False)
         (state0 (edge0 False [delta0 DELETE_OBJECT 11] 0)))))) = 3"
proof -
  let ?s = "state0 (edge0 False [delta0 DELETE_OBJECT 11] 0)"
  let ?S = "SetProperty globals0 (accessor0 items_on False) 2 (Integer 1) ?s"
  let ?C = "ClearProperties globals0 (accessor0 items_on False) ?s"
  have nf: "head_state globals0 ?s \<noteq> HeadForeign"
    by (simp add: head_state_examples)
  have live: "\<not> deleted (edge ?s)"
    by (simp add: state0_fields edge0_fields)
  have pm: "permitted globals0 ?s" using nf by (simp add: permitted_examples)
  have ok: "fst ?S = Inr (Integer 42)" "fst ?C = Inr [(2, Integer 42), (3, Text ''x'')]"
    using SetProperty_fields(1) [OF accessor0_fields(1) pm nf live, of False 2 "Integer 1"]
      ClearProperties_fields(1) [OF accessor0_fields(1) pm nf live, of False]
    by (simp_all add: state0_fields edge0_fields store_defs)
  note T = write_creates_undo_delta [of globals0 "accessor0 items_on False" 2 "Integer 1" ?s
      "Integer 42" "[(2, Integer 42), (3, Text ''x'')]"]
  from T ok(1) have "\<exists>d. delta (edge (snd ?S)) = d # delta (edge ?s) \<and> action d = SET_PROPERTY
      \<and> property_key d = 2 \<and> property_value d = Integer 42"
    by blast
  then have a: "property_value (hd (delta (edge (snd ?S)))) = Integer 42" by auto
  from T ok(1) have b: "PropertyStore_GetProperty (properties (edge (snd ?S))) 2 = Integer 1"
    by blast
  from T ok(2) obtain ds where ds: "delta (edge (snd ?C)) = rev ds @ delta (edge ?s)"
    "map (\<lambda>d. (action d, property_key d, property_value d)) ds
       = map (\<lambda>p. (SET_PROPERTY, fst p, snd p)) [(2, Integer 42), (3, Text ''x'')]"
    by blast
  from arg_cong [OF ds(2), of length] have "length ds = 2" by simp
  with ds(1) have c: "length (delta (edge (snd ?C))) = 3"
    by (simp add: state0_fields edge0_fields)
  from T ok(2) have "PropertyStore_Properties (properties (edge (snd ?C))) = []"
    by blast
  then have d: "properties (edge (snd ?C)) = []" by (simp add: PropertyStore_Properties_def)
  from ok a b c d show ?thesis by simp
qed

text \<open>
  C5, as the code has it. Every delta created by \<^verbatim>\<open>SetProperty\<close> or \<^verbatim>\<open>ClearProperties\<close>
  carries the two endpoint ids of the edge, and in \<open>transaction_st\<close> the local \<open>ts\<close> of the
  write: the \<open>transaction_st\<close> of the edge when there is no head delta, the timestamp read
  from a committed head, and the \<open>transaction_st\<close> of a head of the calling transaction.
\<close>

theorem write_delta_carries:
  "(fst (SetProperty g acc k v s) = Inr old \<longrightarrow>
      (\<exists>d. delta (edge (snd (SetProperty g acc k v s))) = d # delta (edge s)
           \<and> Delta.from_gid d = from_gid (edge s) \<and> Delta.to_gid d = to_gid (edge s)
           \<and> Delta.transaction_st d = write_ts g s))
   \<and> (fst (ClearProperties g acc s) = Inr removed \<longrightarrow>
      (\<exists>ds. delta (edge (snd (ClearProperties g acc s))) = ds @ delta (edge s)
           \<and> length ds = length removed
           \<and> map Delta.from_gid ds = replicate (length removed) (from_gid (edge s))
           \<and> map Delta.to_gid ds = replicate (length removed) (to_gid (edge s))
           \<and> map Delta.transaction_st ds = replicate (length removed) (write_ts g s)))
   \<and> (head_state g s = NoHead \<longrightarrow> write_ts g s = transaction_st (edge s))
   \<and> (head_state g s = HeadCommitted \<longrightarrow>
        write_ts g s = cells s (timestamp (hd (delta (edge s)))))
   \<and> (head_state g s = HeadOwn \<longrightarrow>
        write_ts g s = Delta.transaction_st (hd (delta (edge s))))"
proof (intro conjI impI)
  assume r: "fst (SetProperty g acc k v s) = Inr old"
  note ok = SetProperty_Inr [OF r]
  show "\<exists>d. delta (edge (snd (SetProperty g acc k v s))) = d # delta (edge s)
           \<and> Delta.from_gid d = from_gid (edge s) \<and> Delta.to_gid d = to_gid (edge s)
           \<and> Delta.transaction_st d = write_ts g s"
    by (simp add: SetProperty_fields(2) [OF ok] undo_delta_def)
next
  assume r: "fst (ClearProperties g acc s) = Inr removed"
  note ok = ClearProperties_Inr [OF r]
  note f = ClearProperties_fields [OF ok]
  from r f(1) have removed: "removed = PropertyStore_Properties (properties (edge s))" by simp
  define ds where "ds = rev (map (undo_delta (commit_timestamp (txn s)) (from_gid (edge s))
                       (to_gid (edge s)) (write_ts g s)) removed)"
  have "delta (edge (snd (ClearProperties g acc s))) = ds @ delta (edge s)"
    by (simp add: f(2) removed ds_def)
  moreover have "length ds = length removed" by (simp add: ds_def)
  moreover have "map Delta.from_gid ds = replicate (length removed) (from_gid (edge s))"
    "map Delta.to_gid ds = replicate (length removed) (to_gid (edge s))"
    "map Delta.transaction_st ds = replicate (length removed) (write_ts g s)"
    by (simp_all add: ds_def undo_delta_def rev_map [symmetric] map_replicate_const o_def)
  ultimately show "\<exists>ds. delta (edge (snd (ClearProperties g acc s))) = ds @ delta (edge s)
           \<and> length ds = length removed
           \<and> map Delta.from_gid ds = replicate (length removed) (from_gid (edge s))
           \<and> map Delta.to_gid ds = replicate (length removed) (to_gid (edge s))
           \<and> map Delta.transaction_st ds = replicate (length removed) (write_ts g s)"
    by blast
qed (simp_all add: write_ts_no_head write_ts_committed write_ts_own)

theorem write_delta_carries_witness:
  "Delta.transaction_st (hd (delta (edge (snd (SetProperty globals0 (accessor0 items_on False) 2
         (Integer 1) (state0 (edge0 False [delta0 DELETE_OBJECT 11] 0))))))) = 5
   \<and> Delta.from_gid (hd (delta (edge (snd (SetProperty globals0 (accessor0 items_on False) 2
         (Integer 1) (state0 (edge0 False [delta0 DELETE_OBJECT 11] 0))))))) = 20
   \<and> Delta.to_gid (hd (delta (edge (snd (SetProperty globals0 (accessor0 items_on False) 2
         (Integer 1) (state0 (edge0 False [delta0 DELETE_OBJECT 11] 0))))))) = 21
   \<and> Delta.transaction_st (hd (delta (edge (snd (SetProperty globals0 (accessor0 items_on False) 2
         (Integer 1) (state0 (edge0 False [delta0 DELETE_OBJECT 12] 0))))))) = 3
   \<and> Delta.transaction_st (hd (delta (edge (snd (SetProperty globals0 (accessor0 items_on False) 2
         (Integer 1) (state0 (edge0 False [] 0))))))) = 2"
proof -
  have ok: "fst (SetProperty globals0 (accessor0 items_on False) 2 (Integer 1)
                  (state0 (edge0 False ds 0))) = Inr (Integer 42)"
    if "head_state globals0 (state0 (edge0 False ds 0)) \<noteq> HeadForeign" for ds
    using SetProperty_fields(1) [OF accessor0_fields(1) _ that, of False 2 "Integer 1"] that
    by (simp add: permitted_examples state0_fields edge0_fields store_defs)
  have ts: "cells0 (timestamp (delta0 a 11)) = 5" "Delta.transaction_st (delta0 a c) = 3" for a c
    by (simp_all add: example_defs)
  have "Delta.transaction_st (hd (delta (edge (snd (SetProperty globals0 (accessor0 items_on False) 2
            (Integer 1) (state0 (edge0 False ds 0)))))))
          = write_ts globals0 (state0 (edge0 False ds 0))
        \<and> Delta.from_gid (hd (delta (edge (snd (SetProperty globals0 (accessor0 items_on False) 2
            (Integer 1) (state0 (edge0 False ds 0))))))) = 20
        \<and> Delta.to_gid (hd (delta (edge (snd (SetProperty globals0 (accessor0 items_on False) 2
            (Integer 1) (state0 (edge0 False ds 0))))))) = 21"
    if "head_state globals0 (state0 (edge0 False ds 0)) \<noteq> HeadForeign" for ds
  proof -
    from write_delta_carries [of globals0 "accessor0 items_on False" 2 "Integer 1"
        "state0 (edge0 False ds 0)" "Integer 42" "[]"] ok [OF that]
    obtain d where
      "delta (edge (snd (SetProperty globals0 (accessor0 items_on False) 2 (Integer 1)
          (state0 (edge0 False ds 0))))) = d # delta (edge (state0 (edge0 False ds 0)))"
      "Delta.from_gid d = from_gid (edge (state0 (edge0 False ds 0)))"
      "Delta.to_gid d = to_gid (edge (state0 (edge0 False ds 0)))"
      "Delta.transaction_st d = write_ts globals0 (state0 (edge0 False ds 0))"
      by blast
    then show ?thesis by (simp add: state0_fields edge0_fields)
  qed
  from this [of "[delta0 DELETE_OBJECT 11]"] this [of "[delta0 DELETE_OBJECT 12]"] this [of "[]"]
    write_delta_carries [of globals0 "accessor0 items_on False" 2 "Integer 1"
        "state0 (edge0 False [delta0 DELETE_OBJECT 11] 0)" "Integer 42" "[]"]
    write_delta_carries [of globals0 "accessor0 items_on False" 2 "Integer 1"
        "state0 (edge0 False [delta0 DELETE_OBJECT 12] 0)" "Integer 42" "[]"]
    write_delta_carries [of globals0 "accessor0 items_on False" 2 "Integer 1"
        "state0 (edge0 False [] 0)" "Integer 42" "[]"]
  show ?thesis
    by (simp add: head_state_examples state0_fields edge0_fields ts)
qed

text \<open>
  The claim as worded fails: the transaction starts at 10 and writes to an edge whose head
  was committed at 5; the new deltas carry 5, not the start timestamp of the transaction.
\<close>

theorem write_delta_carries_counterexample:
  "fst (SetProperty globals0 (accessor0 items_on False) 2 (Integer 1)
         (state0 (edge0 False [delta0 DELETE_OBJECT 11] 0))) = Inr (Integer 42)
   \<and> Delta.transaction_st (hd (delta (edge (snd (SetProperty globals0 (accessor0 items_on False) 2
         (Integer 1) (state0 (edge0 False [delta0 DELETE_OBJECT 11] 0))))))) = 5
   \<and> start_timestamp (txn (state0 (edge0 False [delta0 DELETE_OBJECT 11] 0))) = 10
   \<and> fst (ClearProperties globals0 (accessor0 items_on False)
         (state0 (edge0 False [delta0 DELETE_OBJECT 11] 0))) = Inr [(2, Integer 42), (3, Text ''x'')]
   \<and> map Delta.transaction_st (delta (edge (snd (ClearProperties globals0
         (accessor0 items_on False) (state0 (edge0 False [delta0 DELETE_OBJECT 11] 0)))))) = [5, 5, 3]"
  by (simp add: write_defs store_defs example_defs)

section \<open>Edge properties turned off\<close>

text \<open>
  C6, as the code has it. With \<^verbatim>\<open>properties_on_edges\<close> off, \<^verbatim>\<open>SetProperty\<close> and
  \<^verbatim>\<open>ClearProperties\<close> return \<^verbatim>\<open>PROPERTIES_DISABLED\<close> whatever the state is and leave it
  and its trace untouched; \<^verbatim>\<open>GetProperty\<close> and \<^verbatim>\<open>Properties\<close> then succeed with the null
  value and the empty map, and in no configuration return \<^verbatim>\<open>PROPERTIES_DISABLED\<close>.
\<close>

theorem properties_disabled_on_writes:
  "(\<not> properties_on_edges (config acc) \<longrightarrow>
      SetProperty g acc k v s = (Inl PROPERTIES_DISABLED, s)
      \<and> ClearProperties g acc s = (Inl PROPERTIES_DISABLED, s)
      \<and> fst (GetProperty h acc k view s) = Inr Null
      \<and> fst (Properties h acc view s) = Inr [])
   \<and> fst (GetProperty h acc k view s) \<noteq> Inl PROPERTIES_DISABLED
   \<and> fst (Properties h acc view s) \<noteq> Inl PROPERTIES_DISABLED"
  by (simp add: SetProperty_def ClearProperties_def GetProperty_def Properties_def Let_def
      read_result_def)

theorem properties_disabled_on_writes_witness:
  "SetProperty globals0 (accessor0 items_off False) 2 (Integer 1)
         (state0 (edge0 False [delta0 SET_PROPERTY 13] 0))
       = (Inl PROPERTIES_DISABLED, state0 (edge0 False [delta0 SET_PROPERTY 13] 0))
   \<and> ClearProperties globals0 (accessor0 items_off False)
         (state0 (edge0 False [delta0 SET_PROPERTY 13] 0))
       = (Inl PROPERTIES_DISABLED, state0 (edge0 False [delta0 SET_PROPERTY 13] 0))
   \<and> fst (GetProperty resolver0 (accessor0 items_off False) 2 NEW
         (state0 (edge0 False [delta0 SET_PROPERTY 13] 0))) = Inr Null"
  using properties_disabled_on_writes [of "accessor0 items_off False" globals0 2 "Integer 1"
      "state0 (edge0 False [delta0 SET_PROPERTY 13] 0)" resolver0 NEW]
  by (simp add: accessor0_fields)

text \<open>
  The claim as worded fails for the two readers: with the feature off they do not return
  \<^verbatim>\<open>PROPERTIES_DISABLED\<close>.
\<close>

theorem properties_disabled_counterexample:
  "\<not> properties_on_edges (config (accessor0 items_off False))
   \<and> fst (GetProperty resolver0 (accessor0 items_off False) 2 NEW (state0 (edge0 False [] 0)))
       = Inr Null
   \<and> fst (Properties resolver0 (accessor0 items_off False) NEW (state0 (edge0 False [] 0)))
       = Inr []"
  by (simp add: GetProperty_def Properties_def accessor0_fields)

section \<open>Errors of the property readers\<close>

text \<open>
  C7. When \<^verbatim>\<open>GetProperty\<close> or \<^verbatim>\<open>Properties\<close> replays the chain (it does with properties
  on), it returns \<^verbatim>\<open>NONEXISTENT_OBJECT\<close> whenever an applicable delta is a \<^verbatim>\<open>DELETE_OBJECT\<close>
  (the replay leaves \<open>exists\<close> false), whatever the deleted flag and the mode are;
  \<^verbatim>\<open>DELETED_OBJECT\<close> when the object exists, the reconstructed deleted flag is true (the live
  flag is set and no applicable delta is a \<^verbatim>\<open>RECREATE_OBJECT\<close>) and the accessor is not in
  include-deleted mode; and otherwise, so also for a deleted object in include-deleted mode,
  the reconstructed properties: \<^verbatim>\<open>Properties\<close> returns a map with the entries of the live map
  after the undo of every applicable \<^verbatim>\<open>SET_PROPERTY\<close> delta, and \<^verbatim>\<open>GetProperty\<close> the value
  that map gives the key. The same verdict is drawn from the flags and the result the
  visitors of the code leave.
\<close>

theorem read_errors:
  assumes "properties_on_edges (config acc)"
  shows "fst (GetProperty h acc k view s) =
           (if DELETE_OBJECT \<in> action ` set (applicable h view s) then Inl NONEXISTENT_OBJECT
            else if deleted (edge s) \<and> RECREATE_OBJECT \<notin> action ` set (applicable h view s)
                    \<and> \<not> for_deleted acc
              then Inl DELETED_OBJECT
            else Inr (value_of (snd (snd (reconstructed h view s))) k))
         \<and> map_sum id map_of (fst (Properties h acc view s)) =
           (if DELETE_OBJECT \<in> action ` set (applicable h view s) then Inl NONEXISTENT_OBJECT
            else if deleted (edge s) \<and> RECREATE_OBJECT \<notin> action ` set (applicable h view s)
                    \<and> \<not> for_deleted acc
              then Inl DELETED_OBJECT
            else Inr (snd (snd (reconstructed h view s))))
         \<and> fst (GetProperty h acc k view s) =
           (if \<not> fst (GetProperty_replay h k view s) then Inl NONEXISTENT_OBJECT
            else if fst (snd (GetProperty_replay h k view s)) \<and> \<not> for_deleted acc
              then Inl DELETED_OBJECT
            else Inr (snd (snd (GetProperty_replay h k view s))))
         \<and> fst (Properties h acc view s) =
           (if \<not> fst (Properties_replay h view s) then Inl NONEXISTENT_OBJECT
            else if fst (snd (Properties_replay h view s)) \<and> \<not> for_deleted acc
              then Inl DELETED_OBJECT
            else Inr (snd (snd (Properties_replay h view s))))
         \<and> fst (GetProperty_replay h k view s) = (DELETE_OBJECT \<notin> action ` set (applicable h view s))
         \<and> fst (Properties_replay h view s) = (DELETE_OBJECT \<notin> action ` set (applicable h view s))
         \<and> fst (snd (GetProperty_replay h k view s))
             = (deleted (edge s) \<and> RECREATE_OBJECT \<notin> action ` set (applicable h view s))
         \<and> fst (snd (Properties_replay h view s))
             = (deleted (edge s) \<and> RECREATE_OBJECT \<notin> action ` set (applicable h view s))"
proof -
  have g: "fst (GetProperty h acc k view s) = read_result acc (GetProperty_replay h k view s)"
    by (simp add: GetProperty_eq [OF assms])
  have p: "fst (Properties h acc view s) = read_result acc (Properties_replay h view s)"
    by (simp add: Properties_eq [OF assms])
  show ?thesis
    unfolding g p
    by (simp add: read_result_def GetProperty_replay_flags Properties_replay_flags
        GetProperty_replay_value Properties_replay_map)
qed

theorem read_errors_witness:
  "fst (GetProperty resolver0 (accessor0 items_on False) 2 NEW
         (state0 (edge0 True [delta0 SET_PROPERTY 13, delta0 DELETE_OBJECT 13] 0)))
     = Inl NONEXISTENT_OBJECT
   \<and> fst (Properties resolver0 (accessor0 items_on True) NEW
         (state0 (edge0 True [delta0 SET_PROPERTY 13, delta0 DELETE_OBJECT 13] 0)))
     = Inl NONEXISTENT_OBJECT
   \<and> fst (Properties resolver0 (accessor0 items_on False) OLD (state0 (edge0 True [] 0)))
     = Inl DELETED_OBJECT
   \<and> fst (GetProperty resolver0 (accessor0 items_on False) 2 OLD
         (state0 (edge0 True [delta0 SET_PROPERTY 13] 0)))
     = Inl DELETED_OBJECT
   \<and> fst (GetProperty resolver0 (accessor0 items_on True) 2 OLD
         (state0 (edge0 True [delta0 SET_PROPERTY 13] 0)))
     = Inr (Integer 41)
   \<and> fst (Properties resolver0 (accessor0 items_on True) OLD
         (state0 (edge0 True [delta0 SET_PROPERTY 13] 0)))
     = Inr [(2, Integer 41), (3, Text ''x'')]
   \<and> fst (Properties resolver0 (accessor0 items_on True) OLD
         (state0 (edge0 True [undo0 3 Null 13, undo0 4 (Integer 9) 13] 0)))
     = Inr [(2, Integer 42), (4, Integer 9)]
   \<and> snd (snd (reconstructed resolver0 OLD (state0 (edge0 True [delta0 SET_PROPERTY 13] 0))))
     = [2 \<mapsto> Integer 41, 3 \<mapsto> Text ''x'']"
proof -
  have r: "GetProperty_replay resolver0 2 NEW
        (state0 (edge0 True [delta0 SET_PROPERTY 13, delta0 DELETE_OBJECT 13] 0))
      = (False, True, Integer 41)"
    "Properties_replay resolver0 NEW
        (state0 (edge0 True [delta0 SET_PROPERTY 13, delta0 DELETE_OBJECT 13] 0))
      = (False, True, [(2, Integer 41), (3, Text ''x'')])"
    "Properties_replay resolver0 OLD (state0 (edge0 True [] 0))
      = (True, True, [(2, Integer 42), (3, Text ''x'')])"
    "GetProperty_replay resolver0 2 OLD (state0 (edge0 True [delta0 SET_PROPERTY 13] 0))
      = (True, True, Integer 41)"
    "Properties_replay resolver0 OLD (state0 (edge0 True [delta0 SET_PROPERTY 13] 0))
      = (True, True, [(2, Integer 41), (3, Text ''x'')])"
    "Properties_replay resolver0 OLD
        (state0 (edge0 True [undo0 3 Null 13, undo0 4 (Integer 9) 13] 0))
      = (True, True, [(2, Integer 42), (4, Integer 9)])"
    by (simp_all add: read_defs store_defs example_defs)
  have m: "snd (snd (reconstructed resolver0 OLD (state0 (edge0 True [delta0 SET_PROPERTY 13] 0))))
     = [2 \<mapsto> Integer 41, 3 \<mapsto> Text ''x'']"
    by (rule ext) (simp add: reconstructed_def applicable_def Resolver_undo_def
        undo_property_def store_defs example_defs)
  note E = read_errors [THEN conjunct2, THEN conjunct2]
  show ?thesis
    using E [of "accessor0 items_on False" resolver0 2 NEW
        "state0 (edge0 True [delta0 SET_PROPERTY 13, delta0 DELETE_OBJECT 13] 0)"]
      E [of "accessor0 items_on True" resolver0 2 NEW
        "state0 (edge0 True [delta0 SET_PROPERTY 13, delta0 DELETE_OBJECT 13] 0)"]
      E [of "accessor0 items_on False" resolver0 2 OLD "state0 (edge0 True [] 0)"]
      E [of "accessor0 items_on False" resolver0 2 OLD
        "state0 (edge0 True [delta0 SET_PROPERTY 13] 0)"]
      E [of "accessor0 items_on True" resolver0 2 OLD
        "state0 (edge0 True [delta0 SET_PROPERTY 13] 0)"]
      E [of "accessor0 items_on True" resolver0 2 OLD
        "state0 (edge0 True [undo0 3 Null 13, undo0 4 (Integer 9) 13] 0)"]
    by (simp add: r m accessor0_fields)
qed

section \<open>Visibility\<close>

text \<open>
  C8. \<^verbatim>\<open>IsVisible\<close> is true exactly when the replay leaves \<open>exists\<close> true and the accessor
  is in include-deleted mode or the replayed deleted flag is false. The replay leaves
  \<open>exists\<close> true exactly when no applicable delta is a \<^verbatim>\<open>DELETE_OBJECT\<close>, and \<open>deleted\<close>
  true exactly when the live flag is set and no applicable delta is a \<^verbatim>\<open>RECREATE_OBJECT\<close>;
  deltas of the other seven actions change nothing.
\<close>

theorem IsVisible_iff:
  "fst (IsVisible h acc view s)
     = (fst (IsVisible_replay h view s) \<and> (for_deleted acc \<or> \<not> snd (IsVisible_replay h view s)))
   \<and> fst (IsVisible_replay h view s) = (DELETE_OBJECT \<notin> action ` set (applicable h view s))
   \<and> snd (IsVisible_replay h view s)
       = (deleted (edge s) \<and> RECREATE_OBJECT \<notin> action ` set (applicable h view s))
   \<and> snd (IsVisible h acc view s) = emit [Lock, ReadLive, Unlock, Walk] s"
  by (simp add: IsVisible_eq IsVisible_replay_eq)

theorem IsVisible_iff_witness:
  "fst (IsVisible resolver0 (accessor0 items_on False) NEW
         (state0 (edge0 True [delta0 RECREATE_OBJECT 13, delta0 ADD_LABEL 13, delta0 DELETE_OBJECT 11] 0)))
   \<and> \<not> fst (IsVisible resolver0 (accessor0 items_on True) NEW
         (state0 (edge0 False [delta0 SET_PROPERTY 13, delta0 DELETE_OBJECT 13] 0)))
   \<and> \<not> fst (IsVisible resolver0 (accessor0 items_on False) OLD (state0 (edge0 True [] 0)))"
proof -
  have a: "applicable resolver0 NEW
        (state0 (edge0 True [delta0 RECREATE_OBJECT 13, delta0 ADD_LABEL 13, delta0 DELETE_OBJECT 11] 0))
      = [delta0 RECREATE_OBJECT 13, delta0 ADD_LABEL 13]"
    "applicable resolver0 NEW (state0 (edge0 False [delta0 SET_PROPERTY 13, delta0 DELETE_OBJECT 13] 0))
      = [delta0 SET_PROPERTY 13, delta0 DELETE_OBJECT 13]"
    "applicable resolver0 OLD (state0 (edge0 True [] 0)) = []"
    by (simp_all add: applicable_def example_defs)
  have act: "action (delta0 x c) = x" for x c by (simp add: delta0_def)
  show ?thesis
    using IsVisible_iff [of resolver0 "accessor0 items_on False" NEW
        "state0 (edge0 True [delta0 RECREATE_OBJECT 13, delta0 ADD_LABEL 13, delta0 DELETE_OBJECT 11] 0)"]
      IsVisible_iff [of resolver0 "accessor0 items_on True" NEW
        "state0 (edge0 False [delta0 SET_PROPERTY 13, delta0 DELETE_OBJECT 13] 0)"]
      IsVisible_iff [of resolver0 "accessor0 items_on False" OLD "state0 (edge0 True [] 0)"]
    by (simp add: a act accessor0_fields state0_fields edge0_fields)
qed

section \<open>Reads with edge properties turned off\<close>

text \<open>
  C9. With \<^verbatim>\<open>properties_on_edges\<close> off, \<^verbatim>\<open>GetProperty\<close> succeeds with the null value
  and \<^verbatim>\<open>Properties\<close> succeeds with the empty map, for every edge, key and view; the state
  and its trace are left as they were, so no lock was taken and no chain was walked.
\<close>

theorem reads_with_properties_off:
  assumes "\<not> properties_on_edges (config acc)"
  shows "GetProperty h acc property view s = (Inr Null, s)
         \<and> Properties h acc view s = (Inr [], s)"
  using assms by (simp add: GetProperty_def Properties_def)

theorem reads_with_properties_off_witness:
  "GetProperty resolver0 (accessor0 items_off False) 2 NEW (state0 (edge0 False [delta0 SET_PROPERTY 11] 0))
     = (Inr Null, state0 (edge0 False [delta0 SET_PROPERTY 11] 0))
   \<and> Properties resolver0 (accessor0 items_off False) NEW (state0 (edge0 False [delta0 SET_PROPERTY 11] 0))
     = (Inr [], state0 (edge0 False [delta0 SET_PROPERTY 11] 0))
   \<and> PropertyStore_GetProperty (properties (edge0 False [delta0 SET_PROPERTY 11] 0)) 2 = Integer 42"
proof -
  have off: "\<not> properties_on_edges (config (accessor0 items_off False))"
    by (simp add: accessor0_def items_off_def)
  have live: "PropertyStore_GetProperty (properties (edge0 False [delta0 SET_PROPERTY 11] 0)) 2
                = Integer 42"
    by (simp add: edge0_def PropertyStore_GetProperty_def std_find_def)
  from reads_with_properties_off [OF off] live show ?thesis by simp
qed

section \<open>Endpoint accessors\<close>

text \<open>
  C10. \<^verbatim>\<open>FromVertex\<close> and \<^verbatim>\<open>ToVertex\<close> build the vertex accessor of the stored endpoint
  with the transaction, indices, constraints and config of the edge accessor, and with the
  include-deleted flag at its default, false: the result is the same whatever the
  include-deleted mode of the edge accessor is.
\<close>

theorem endpoint_accessors_not_for_deleted:
  "FromVertex acc =
     \<lparr>vertex = from_vertex acc, VertexAccessor.transaction = transaction acc,
      VertexAccessor.indices = indices acc, VertexAccessor.constraints = constraints acc,
      VertexAccessor.config = config acc, VertexAccessor.for_deleted = False\<rparr>
   \<and> ToVertex acc =
     \<lparr>vertex = to_vertex acc, VertexAccessor.transaction = transaction acc,
      VertexAccessor.indices = indices acc, VertexAccessor.constraints = constraints acc,
      VertexAccessor.config = config acc, VertexAccessor.for_deleted = False\<rparr>
   \<and> FromVertex (acc\<lparr>for_deleted := fd\<rparr>) = FromVertex acc
   \<and> ToVertex (acc\<lparr>for_deleted := fd\<rparr>) = ToVertex acc"
  by (simp add: FromVertex_def ToVertex_def VertexAccessor_ctor_def)

end
